theory Spec2Isabelle
  imports Complex_Main "HOL-Library.Word" "HOL-Library.Log_Nat"
begin

section \<open>Conventions of the embedding\<close>

text \<open>
  The development embeds the media composition and encode-fallback pipeline of the
  repository: \<^verbatim>\<open>image_video_maker.py\<close> (slideshow path) and
  \<^verbatim>\<open>portrait_to_landscape_pro_rewrite.py\<close> (portrait-conversion path).

  \<^item> Python integers are \<open>int\<close>; \<open>//\<close> and \<open>%\<close> are \<open>div\<close> and \<open>mod\<close> (both floor).
  \<^item> A Python float is an IEEE binary64 value and a NumPy \<open>float32\<close> a binary32 value.
    A floating-point value is modelled by the rational it denotes, and every
    floating-point operation rounds its exact result to the nearest value with 53 or 24
    significant bits, ties to even (\<open>float64\<close>, \<open>float32\<close>). The exponent range is
    not modelled: results are taken to stay clear of overflow and of the subnormal
    range, and integers converted to floats to be below \<open>2^53\<close>, as image sizes, frame
    counts and pixel values are.
  \<^item> 8-bit pixels are \<open>8 word\<close>.
  \<^item> Library and process calls whose results the repository does not determine
    (Pillow's resampling, the file system, the external encoder, the stop flag set from
    the user-interface thread) are parameters of the model.
  \<^item> A raised exception is a value: \<open>Inl\<close> of the exception text, or the field
    \<open>raised\<close> of a loop state.
\<close>

subsection \<open>Formatting\<close>

definition digit_char :: "nat \<Rightarrow> char" where
  "digit_char d = ''0123456789'' ! d"

fun str_nat :: "nat \<Rightarrow> string" where
  "str_nat n = (if n < 10 then [digit_char n] else str_nat (n div 10) @ [digit_char (n mod 10)])"

declare str_nat.simps [simp del]

text \<open>\<open>str(i)\<close> and \<open>f"{i}"\<close> for a Python integer.\<close>

definition str_int :: "int \<Rightarrow> string" where
  "str_int i = (if i < 0 then ''-'' @ str_nat (nat (- i)) else str_nat (nat i))"

text \<open>\<open>int(x)\<close> for a float: truncation towards zero.\<close>

definition py_int :: "rat \<Rightarrow> int" where
  "py_int x = (if x < 0 then - \<lfloor>- x\<rfloor> else \<lfloor>x\<rfloor>)"

subsection \<open>Floating-point rounding\<close>

text \<open>The nearest integer, ties to the even one.\<close>

definition round_half_even :: "rat \<Rightarrow> int" where
  "round_half_even y =
     (let f = \<lfloor>y\<rfloor>; r = y - of_int f
      in if r < 1 / 2 then f else if 1 / 2 < r then f + 1 else if even f then f else f + 1)"

text \<open>The binary exponent \<open>e\<close> of a non-zero \<open>x\<close>: \<open>2^e \<le> |x| < 2^(e+1)\<close>.\<close>

definition ilog2 :: "rat \<Rightarrow> int" where
  "ilog2 x =
     (case quotient_of \<bar>x\<bar> of (n, d) \<Rightarrow>
        (let k = bitlen n - bitlen d
         in if 2 powi k \<le> \<bar>x\<bar> then k else k - 1))"

text \<open>Rounding to \<open>p\<close> significant bits: to a multiple of \<open>2^(e - p + 1)\<close>.\<close>

definition fl :: "nat \<Rightarrow> rat \<Rightarrow> rat" where
  "fl p x =
     (if x = 0 then 0
      else let q = 2 powi (ilog2 x - int p + 1)
           in of_int (round_half_even (x / q)) * q)"

definition float32 :: "rat \<Rightarrow> rat" where
  "float32 = fl 24"

definition float64 :: "rat \<Rightarrow> rat" where
  "float64 = fl 53"

subsection \<open>Paths\<close>

text \<open>\<open>os.path.join(a, b)\<close> on POSIX paths.\<close>

definition path_join :: "string \<Rightarrow> string \<Rightarrow> string" where
  "path_join a b =
     (if b \<noteq> [] \<and> hd b = CHR ''/'' then b
      else if a = [] \<or> last a = CHR ''/'' then a @ b
      else a @ ''/'' @ b)"

section \<open>Slideshow path: \<^verbatim>\<open>image_video_maker.py\<close>\<close>

subsection \<open>Images and frames\<close>

datatype resample = NEAREST | BOX | BILINEAR | HAMMING | BICUBIC | LANCZOS

text \<open>A decoded Pillow image in mode RGB: \<open>pil_size\<close> is \<open>(width, height)\<close>.\<close>

record pil_image =
  pil_size :: "int \<times> int"
  rgb :: "8 word list"

text \<open>
  Pillow computes the pixel data of a crop and of a resampled image; the repository
  only chooses the box, the size and the filter. The pixel data are a parameter; the
  sizes of the results are those of Pillow's \<open>crop\<close> and \<open>resize\<close>, and so are the
  two \<open>ValueError\<close>s: \<open>crop\<close> refuses a box whose right or lower coordinate is less
  than the left or upper one, \<open>resize\<close> a size that is not positive.
\<close>

record pil_lib =
  crop_px :: "pil_image \<Rightarrow> int \<times> int \<times> int \<times> int \<Rightarrow> 8 word list"
  resize_px :: "pil_image \<Rightarrow> int \<times> int \<Rightarrow> resample \<Rightarrow> 8 word list"

definition crop ::
  "pil_lib \<Rightarrow> pil_image \<Rightarrow> int \<times> int \<times> int \<times> int \<Rightarrow> string + pil_image" where
  "crop L img bx =
     (case bx of (left, upper, right, lower) \<Rightarrow>
        if right < left then Inl ''Coordinate right is less than left''
        else if lower < upper then Inl ''Coordinate lower is less than upper''
        else Inr \<lparr>pil_size = (right - left, lower - upper), rgb = crop_px L img bx\<rparr>)"

definition resize ::
  "pil_lib \<Rightarrow> pil_image \<Rightarrow> int \<times> int \<Rightarrow> resample \<Rightarrow> string + pil_image" where
  "resize L img sz flt =
     (if fst sz \<le> 0 \<or> snd sz \<le> 0 then Inl ''height and width must be > 0''
      else Inr \<lparr>pil_size = sz, rgb = resize_px L img sz flt\<rparr>)"

text \<open>
  Lines 103-118 of \<open>zoom_crop_and_resize\<close>: the crop geometry
  \<open>(left, top, new_w, new_h)\<close> (\<open>top\<close> is written \<open>top'\<close>). Each of the three divisions raises
  \<open>ZeroDivisionError\<close> on a zero divisor.
\<close>

definition zoom_crop_box :: "int \<Rightarrow> int \<Rightarrow> int \<Rightarrow> int \<Rightarrow> string + int \<times> int \<times> int \<times> int" where
  "zoom_crop_box iw ih target_w target_h =
     (if target_h = 0 then Inl ''division by zero''
      else if ih = 0 then Inl ''division by zero''
      else
        let target_ratio = float64 (of_int target_w / of_int target_h);
            src_ratio = float64 (of_int iw / of_int ih)
        in if src_ratio > target_ratio then
             (let new_h = ih;
                  new_w = py_int (float64 (of_int ih * target_ratio));
                  left = (iw - new_w) div 2;
                  top' = 0
              in Inr (left, top', new_w, new_h))
           else if target_ratio = 0 then Inl ''float division by zero''
           else
             (let new_w = iw;
                  new_h = py_int (float64 (of_int iw / target_ratio));
                  left = 0;
                  top' = (ih - new_h) div 2
              in Inr (left, top', new_w, new_h)))"

definition zoom_crop_and_resize :: "pil_lib \<Rightarrow> pil_image \<Rightarrow> int \<Rightarrow> int \<Rightarrow> string + pil_image" where
  "zoom_crop_and_resize L pil_img target_w target_h =
     (case pil_size pil_img of (iw, ih) \<Rightarrow>
        (case zoom_crop_box iw ih target_w target_h of
           Inl exc \<Rightarrow> Inl exc
         | Inr (left, top', new_w, new_h) \<Rightarrow>
             (case crop L pil_img (left, top', left + new_w, top' + new_h) of
                Inl exc \<Rightarrow> Inl exc
              | Inr cropped \<Rightarrow> resize L cropped (target_w, target_h) LANCZOS)))"

text \<open>
  The crop geometry as the specification words it: the exact product
  \<open>sourceHeight * targetAspect\<close> and the exact quotient \<open>sourceWidth / targetAspect\<close>,
  in whole pixels.
\<close>

definition spec_zoom_crop_box :: "int \<Rightarrow> int \<Rightarrow> int \<Rightarrow> int \<Rightarrow> int \<times> int \<times> int \<times> int" where
  "spec_zoom_crop_box iw ih target_w target_h =
     (let target_ratio = (of_int target_w / of_int target_h :: rat);
          src_ratio = (of_int iw / of_int ih :: rat)
      in if src_ratio > target_ratio then
           (let new_w = \<lfloor>of_int ih * target_ratio\<rfloor>
            in ((iw - new_w) div 2, 0, new_w, ih))
         else
           (let new_h = \<lfloor>of_int iw / target_ratio\<rfloor>
            in (0, (ih - new_h) div 2, iw, new_h)))"

text \<open>A NumPy array of \<open>uint8\<close> with three channels: \<open>shape\<close> is \<open>(rows, columns)\<close>.\<close>

record ndarray =
  shape :: "int \<times> int"
  px :: "8 word list"

fun rgb2bgr :: "8 word list \<Rightarrow> 8 word list" where
  "rgb2bgr (r # g # b # rest) = b # g # r # rgb2bgr rest"
| "rgb2bgr rest = rest"

text \<open>\<open>cv2.cvtColor(np.array(img), cv2.COLOR_RGB2BGR)\<close>.\<close>

definition to_bgr :: "pil_image \<Rightarrow> ndarray" where
  "to_bgr img = \<lparr>shape = (snd (pil_size img), fst (pil_size img)), px = rgb2bgr (rgb img)\<rparr>"

definition zeros_like :: "ndarray \<Rightarrow> ndarray" where
  "zeros_like a = \<lparr>shape = shape a, px = replicate (length (px a)) 0\<rparr>"

subsection \<open>Cross-fade blend (line 220)\<close>

definition astype_float32 :: "8 word \<Rightarrow> rat" where
  "astype_float32 p = of_nat (unat p)"

text \<open>\<open>.astype("uint8")\<close>: the fractional part is discarded, the integer is reduced modulo 256.\<close>

definition astype_uint8 :: "rat \<Rightarrow> 8 word" where
  "astype_uint8 x = word_of_int (py_int x)"

text \<open>
  The \<open>float32\<close> intermediate of one pixel. \<open>1 - alpha\<close> is a Python float; NumPy
  converts a Python float to \<open>float32\<close> before it multiplies a \<open>float32\<close> array by it,
  and the two products and their sum are rounded to \<open>float32\<close>.
\<close>

definition mix_px :: "8 word \<Rightarrow> 8 word \<Rightarrow> rat \<Rightarrow> rat" where
  "mix_px a b alpha =
     float32 (float32 (astype_float32 a * float32 (float64 (1 - alpha)))
              + float32 (astype_float32 b * float32 alpha))"

definition blend_px :: "8 word \<Rightarrow> 8 word \<Rightarrow> rat \<Rightarrow> 8 word" where
  "blend_px a b alpha = astype_uint8 (mix_px a b alpha)"

text \<open>
  The blend of two arrays is elementwise; at every call both arrays have the shape
  \<open>(target_h, target_w)\<close>.
\<close>

definition blend :: "ndarray \<Rightarrow> ndarray \<Rightarrow> rat \<Rightarrow> ndarray" where
  "blend curr_bgr next_bgr alpha =
     \<lparr>shape = shape curr_bgr, px = map2 (\<lambda>a b. blend_px a b alpha) (px curr_bgr) (px next_bgr)\<rparr>"

text \<open>The blend as the specification words it: rounded to the nearest integer.\<close>

definition spec_blend_px :: "8 word \<Rightarrow> 8 word \<Rightarrow> rat \<Rightarrow> 8 word" where
  "spec_blend_px a b alpha = word_of_int (round (mix_px a b alpha))"

text \<open>Line 219: the blend factor of cross-fade frame \<open>f\<close>.\<close>

definition alpha_of :: "int \<Rightarrow> nat \<Rightarrow> rat" where
  "alpha_of crossfade_frames f = float64 ((of_nat f + 1) / of_int (max 1 crossfade_frames))"

subsection \<open>Render sequencer (lines 166-225 of \<open>create_slideshow_thread\<close>)\<close>

text \<open>
  The state of the rendering loop: the frames passed to \<open>writer.write\<close> in order, the
  counter \<open>frames_written\<close>, the calls of \<open>update_progress\<close>, and the exception that
  left the loop, if any.
\<close>

record render_state =
  written :: "ndarray list"
  frames_written :: int
  progress :: "(int \<times> string) list"
  raised :: "string option"

text \<open>Line 167. The caller passes an integer number of seconds.\<close>

definition frames_per_image :: "int \<Rightarrow> int \<Rightarrow> int" where
  "frames_per_image duration_sec fps = max 1 (duration_sec * fps)"

text \<open>Lines 205-207.\<close>

definition stable_frames :: "int \<Rightarrow> int \<Rightarrow> int" where
  "stable_frames fpi crossfade_frames =
     (let s = fpi - crossfade_frames in if s < 0 then 0 else s)"

definition percent :: "int \<Rightarrow> int \<Rightarrow> int" where
  "percent fw total_frames = py_int (float64 (of_int (100 * fw) / of_int total_frames))"

text \<open>The body shared by both emission loops (lines 211-215 and 221-225).\<close>

definition write_frame :: "int \<Rightarrow> int \<Rightarrow> ndarray \<Rightarrow> render_state \<Rightarrow> render_state" where
  "write_frame fps total_frames frame st =
     (let fw = frames_written st + 1;
          st1 = st\<lparr>written := written st @ [frame], frames_written := fw\<rparr>
      in if fw mod max 1 (fps div 2) = 0 \<or> fw = total_frames
         then st1\<lparr>progress := progress st1 @
                [(percent fw total_frames,
                  ''Rendering frames... ('' @ str_int fw @ ''/'' @ str_int total_frames @ '')'')]\<rparr>
         else st1)"

text \<open>Lines 197-202: the frame the cross-fade of item \<open>idx\<close> blends towards.\<close>

definition next_frame ::
  "pil_lib \<Rightarrow> pil_image option list \<Rightarrow> nat \<Rightarrow> int \<Rightarrow> int \<Rightarrow> ndarray \<Rightarrow> string + ndarray" where
  "next_frame L pil_images idx target_w target_h curr_bgr =
     (case (if idx + 1 < length pil_images then pil_images ! (idx + 1) else None) of
        Some pil_next \<Rightarrow>
          (case zoom_crop_and_resize L pil_next target_w target_h of
             Inl exc \<Rightarrow> Inl exc
           | Inr next_frame_pil \<Rightarrow> Inr (to_bgr next_frame_pil))
      | None \<Rightarrow> Inr (zeros_like curr_bgr))"

text \<open>Lines 185-225: one iteration of the loop over the items.\<close>

definition render_image ::
  "pil_lib \<Rightarrow> pil_image option list \<Rightarrow> int \<Rightarrow> int \<Rightarrow> int \<Rightarrow> int \<Rightarrow> int \<Rightarrow> int \<Rightarrow> nat \<Rightarrow>
   render_state \<Rightarrow> render_state" where
  "render_image L pil_images fps fpi total_frames crossfade_frames target_w target_h idx st =
     (case pil_images ! idx of
        None \<Rightarrow>
          (let fw = frames_written st + fpi
           in st\<lparr>frames_written := fw,
                 progress := progress st @
                   [(min 100 (percent fw total_frames),
                     ''Skipping unreadable image '' @ str_int (int idx + 1) @ ''/'' @
                       str_int (int (length pil_images)))]\<rparr>)
      | Some pil_curr \<Rightarrow>
          (case zoom_crop_and_resize L pil_curr target_w target_h of
             Inl exc \<Rightarrow> st\<lparr>raised := Some exc\<rparr>
           | Inr curr_frame_pil \<Rightarrow>
               (let curr_bgr = to_bgr curr_frame_pil
                in case next_frame L pil_images idx target_w target_h curr_bgr of
                     Inl exc \<Rightarrow> st\<lparr>raised := Some exc\<rparr>
                   | Inr next_bgr \<Rightarrow>
                       (let stable = stable_frames fpi crossfade_frames;
                            st1 = fold (\<lambda>_. write_frame fps total_frames curr_bgr)
                                    [0 ..< nat stable] st
                        in fold (\<lambda>f. write_frame fps total_frames
                                        (blend curr_bgr next_bgr (alpha_of crossfade_frames f)))
                             [0 ..< nat crossfade_frames] st1))))"

text \<open>
  Lines 166-225, given the preloaded list \<open>pil_images\<close> (\<open>None\<close> for an image that did
  not decode). An exception ends the loop.
\<close>

definition render_frames ::
  "pil_lib \<Rightarrow> pil_image option list \<Rightarrow> int \<Rightarrow> int \<Rightarrow> int \<Rightarrow> int \<Rightarrow> int \<Rightarrow> render_state" where
  "render_frames L pil_images duration_sec fps crossfade_frames target_w target_h =
     (let total_images = int (length pil_images);
          fpi = frames_per_image duration_sec fps;
          total_frames = total_images * fpi;
          st0 = \<lparr>written = [], frames_written = 0,
                 progress = [(0, ''Rendering frames...'')], raised = None\<rparr>
      in fold (\<lambda>idx st. if raised st = None
                         then render_image L pil_images fps fpi total_frames crossfade_frames
                                target_w target_h idx st
                         else st)
           [0 ..< length pil_images] st0)"

text \<open>The number of items that decoded.\<close>

definition decoded_count :: "pil_image option list \<Rightarrow> nat" where
  "decoded_count pil_images = length (filter (\<lambda>p. p \<noteq> None) pil_images)"

text \<open>An image with positive width and height, as every image Pillow decodes.\<close>

definition positive_size :: "pil_image \<Rightarrow> bool" where
  "positive_size img = (0 < fst (pil_size img) \<and> 0 < snd (pil_size img))"

subsection \<open>Encode and mux orchestrator, and the whole job\<close>

text \<open>
  Calls on the file system and the encoder, each with whether it succeeded.
\<close>

datatype fs_op =
  Ffmpeg "string list" bool
| Move string string bool
| Copy string string bool
| Rmtree string

text \<open>
  What the job cannot determine itself: \<open>image_open name\<close> is
  \<open>Image.open(os.path.join(folder, name)).convert("RGB")\<close>, \<open>writer_isOpened\<close> tells
  whether a \<open>cv2.VideoWriter\<close> with the given codec opens, \<open>run_ffmpeg\<close> is the function of
  that name (\<open>Inl\<close> carries the text of the \<open>RuntimeError\<close>), and \<open>shutil_move\<close>,
  \<open>shutil_copy\<close> return \<open>Inl\<close> of the exception text when they raise.
\<close>

record slideshow_env =
  image_open :: "string \<Rightarrow> string + pil_image"
  pillow :: pil_lib
  mkdtemp :: string
  writer_isOpened :: "string \<Rightarrow> bool"
  path_exists :: "string \<Rightarrow> bool"
  run_ffmpeg :: "string list \<Rightarrow> string + unit"
  shutil_move :: "string \<Rightarrow> string \<Rightarrow> string + unit"
  shutil_copy :: "string \<Rightarrow> string \<Rightarrow> string + unit"

text \<open>
  What one job does: the frames written to the raw video, the calls of
  \<open>update_progress\<close> and of \<open>on_done\<close>, and the calls on the file system and encoder.
\<close>

record job_outcome =
  frames :: "ndarray list"
  progress_calls :: "(int \<times> string) list"
  done_calls :: "(bool \<times> string) list"
  fs_ops :: "fs_op list"

text \<open>Lines 232-248.\<close>

definition ffmpeg_cmd :: "slideshow_env \<Rightarrow> string \<Rightarrow> string \<Rightarrow> string option \<Rightarrow> string list" where
  "ffmpeg_cmd env raw_video final_tmp bgm_path =
     (case (case bgm_path of
              Some b \<Rightarrow> if b \<noteq> [] \<and> path_exists env b then Some b else None
            | None \<Rightarrow> None) of
        Some b \<Rightarrow>
          [''ffmpeg'', ''-y'', ''-i'', raw_video, ''-i'', b,
           ''-map'', ''0:v:0'', ''-map'', ''1:a:0'',
           ''-c:v'', ''libx264'', ''-pix_fmt'', ''yuv420p'', ''-preset'', ''medium'',
           ''-c:a'', ''aac'', ''-b:a'', ''192k'',
           ''-shortest'',
           final_tmp]
      | None \<Rightarrow>
          [''ffmpeg'', ''-y'', ''-i'', raw_video,
           ''-c:v'', ''libx264'', ''-pix_fmt'', ''yuv420p'', ''-preset'', ''medium'',
           final_tmp])"

text \<open>Lines 228-278: from the released raw video to \<open>on_done\<close>.\<close>

definition encode_and_save ::
  "slideshow_env \<Rightarrow> string \<Rightarrow> string \<Rightarrow> string \<Rightarrow> string option \<Rightarrow> job_outcome" where
  "encode_and_save env tmp_dir raw_video output_path bgm_path =
     (let final_tmp = path_join tmp_dir ''final.mp4'';
          cmd = ffmpeg_cmd env raw_video final_tmp bgm_path;
          p85 = [(85, ''Re-encoding & adding audio (ffmpeg)...'')]
      in case run_ffmpeg env cmd of
           Inl e \<Rightarrow>
             (case shutil_move env raw_video output_path of
                Inr _ \<Rightarrow>
                  \<lparr>frames = [], progress_calls = p85,
                   done_calls = [(True, ''Saved raw video (ffmpeg failed). Video at: '' @ output_path
                                   @ ''\<newline>ffmpeg error:\<newline>'' @ e)],
                   fs_ops = [Ffmpeg cmd False, Move raw_video output_path True, Rmtree tmp_dir]\<rparr>
              | Inl e2 \<Rightarrow>
                  \<lparr>frames = [], progress_calls = p85,
                   done_calls = [(False, ''ffmpeg failed and fallback save failed:\<newline>'' @ e
                                   @ ''\<newline>'' @ e2)],
                   fs_ops = [Ffmpeg cmd False, Move raw_video output_path False, Rmtree tmp_dir]\<rparr>)
         | Inr _ \<Rightarrow>
             (case shutil_move env final_tmp output_path of
                Inr _ \<Rightarrow>
                  \<lparr>frames = [], progress_calls = p85 @ [(100, ''Completed'')],
                   done_calls = [(True, ''Video saved: '' @ output_path)],
                   fs_ops = [Ffmpeg cmd True, Move final_tmp output_path True, Rmtree tmp_dir]\<rparr>
              | Inl _ \<Rightarrow>
                  (case shutil_copy env final_tmp output_path of
                     Inr _ \<Rightarrow>
                       \<lparr>frames = [], progress_calls = p85 @ [(100, ''Completed'')],
                        done_calls = [(True, ''Video saved: '' @ output_path)],
                        fs_ops = [Ffmpeg cmd True, Move final_tmp output_path False,
                                  Copy final_tmp output_path True, Rmtree tmp_dir]\<rparr>
                   | Inl e \<Rightarrow>
                       \<lparr>frames = [], progress_calls = p85,
                        done_calls = [(False, ''Failed to save final video to destination: '' @ e)],
                        fs_ops = [Ffmpeg cmd True, Move final_tmp output_path False,
                                  Copy final_tmp output_path False, Rmtree tmp_dir]\<rparr>)))"

text \<open>
  \<open>create_slideshow_thread\<close>, lines 134-285. \<open>images\<close> is the list of file names after
  lines 136-142 (filtered by extension, sorted, shuffled on request). In the handler of
  line 280 the directory is removed only if \<open>tmp_dir\<close> was already bound.
\<close>

definition create_slideshow_thread ::
  "slideshow_env \<Rightarrow> string list \<Rightarrow> string \<Rightarrow> int \<Rightarrow> int \<Rightarrow> (int \<times> int) option \<Rightarrow> int \<Rightarrow>
   string option \<Rightarrow> job_outcome" where
  "create_slideshow_thread env images output_path duration_sec fps resolution crossfade_frames
     bgm_path =
     (case images of
        [] \<Rightarrow>
          \<lparr>frames = [], progress_calls = [],
           done_calls = [(False, ''No images found in selected folder.'')], fs_ops = []\<rparr>
      | first_name # _ \<Rightarrow>
          (case image_open env first_name of
             Inl exc \<Rightarrow>
               \<lparr>frames = [], progress_calls = [],
                done_calls = [(False, ''Error during generation: '' @ exc)], fs_ops = []\<rparr>
           | Inr first_pil \<Rightarrow>
               (let target = (case resolution of None \<Rightarrow> pil_size first_pil | Some r \<Rightarrow> r);
                    target_w = fst target;
                    target_h = snd target;
                    tmp_dir = mkdtemp env;
                    raw_video = path_join tmp_dir ''raw_video.mp4''
                in if \<not> writer_isOpened env ''avc1'' \<and> \<not> writer_isOpened env ''mp4v'' then
                     \<lparr>frames = [], progress_calls = [],
                      done_calls = [(False, ''Failed to open VideoWriter. Missing codecs.'')],
                      fs_ops = [Rmtree tmp_dir]\<rparr>
                   else
                     (let pil_images =
                            map (\<lambda>img_name. case image_open env img_name of
                                               Inl _ \<Rightarrow> None | Inr pil \<Rightarrow> Some pil) images;
                          st = render_frames (pillow env) pil_images duration_sec fps
                                 crossfade_frames target_w target_h
                      in case raised st of
                           Some exc \<Rightarrow>
                             \<lparr>frames = written st, progress_calls = progress st,
                              done_calls = [(False, ''Error during generation: '' @ exc)],
                              fs_ops = [Rmtree tmp_dir]\<rparr>
                         | None \<Rightarrow>
                             (let fin = encode_and_save env tmp_dir raw_video output_path bgm_path
                              in fin\<lparr>frames := written st,
                                     progress_calls := progress st @ progress_calls fin\<rparr>)))))"

section \<open>Portrait-conversion path: \<^verbatim>\<open>portrait_to_landscape_pro_rewrite.py\<close>\<close>

subsection \<open>Filter builders (lines 144-167)\<close>

definition build_blur_vf :: "int \<Rightarrow> int \<Rightarrow> int \<Rightarrow> string" where
  "build_blur_vf W H blur_strength =
     (let s = str_int (max 1 blur_strength)
      in ''[0:v]scale='' @ str_int W @ '':'' @ str_int H
           @ '':force_original_aspect_ratio=decrease,pad='' @ str_int W @ '':'' @ str_int H
           @ '':(ow-iw)/2:(oh-ih)/2:black[fg];''
         @ ''[0:v]scale='' @ str_int W @ '':'' @ str_int H
           @ '':force_original_aspect_ratio=increase,crop='' @ str_int W @ '':'' @ str_int H
           @ '',boxblur='' @ s @ '':'' @ s @ ''[bg];''
         @ ''[bg][fg]overlay=(W-w)/2:(H-h)/2'')"

definition build_letterbox_vf :: "int \<Rightarrow> int \<Rightarrow> string \<Rightarrow> string" where
  "build_letterbox_vf W H hexcolor =
     (let col = (if hexcolor \<noteq> [] \<and> hd hexcolor = CHR ''#'' then ''0x'' @ tl hexcolor
                 else hexcolor)
      in ''scale='' @ [CHR 0x27] @ ''min('' @ str_int W @ '',iw)'' @ [CHR 0x27] @ '':-2,pad=''
           @ str_int W @ '':'' @ str_int H @ '':(ow-iw)/2:(oh-ih)/2:'' @ col)"

text \<open>The zoom factor is not used in the filter that is returned.\<close>

definition build_zoom_vf :: "int \<Rightarrow> int \<Rightarrow> rat \<Rightarrow> string" where
  "build_zoom_vf W H zoom =
     ''scale=-2:'' @ str_int H @ '',crop='' @ str_int W @ '':'' @ str_int H"

text \<open>
  The geometry the encoder derives from the scale stage of the letterbox filter,
  \<open>scale='min(W,iw)':-2\<close>, for a source of \<open>iw\<close> by \<open>ih\<close> pixels: the width is
  \<open>min(W, iw)\<close>, and the height keeps the aspect ratio, rounded to a multiple of 2
  (ffmpeg's \<open>av_rescale(w, ih, iw * 2) * 2\<close>, which rounds to nearest).
\<close>

definition letterbox_scaled_size :: "int \<Rightarrow> int \<times> int \<Rightarrow> int \<times> int" where
  "letterbox_scaled_size W src =
     (case src of (iw, ih) \<Rightarrow>
        (let w = min W iw
         in (w, ((w * ih + iw) div (2 * iw)) * 2)))"

subsection \<open>The conversion worker (lines 483-612)\<close>

text \<open>
  The settings the worker reads from the user interface. The two floating-point
  settings that are only formatted into a command line are kept as the text
  \<open>f"{x}"\<close> gives.
\<close>

record converter =
  res_var :: string
  mode_var :: string
  blur_var :: int
  lb_color :: string
  zoom_var :: rat
  watermark_path :: "string option"
  wm_scale_var :: rat
  wm_opacity_text :: string
  wm_pos_var :: string
  bgm_path :: "string option"
  bgm_vol_text :: string
  bgm_trim_var :: bool
  bgm_loop_var :: bool

text \<open>
  What the worker does, in order. \<open>Poll b\<close> is a read of \<open>self.stop_flag\<close> that gave
  \<open>b\<close>; \<open>Log\<close> carries the text without its time stamp; \<open>RunCmd\<close> and \<open>CopyFile\<close> carry
  whether the call succeeded.
\<close>

datatype event =
  Poll bool
| Log string
| Mkdtemp string
| RunCmd "string list" bool
| CopyFile string string bool
| Rmtree_tmp string
| SetOverall int
| SetCurrent int
| SetStatus string
| EnableConvert
| ShowInfo string string

text \<open>
  The surroundings of the worker. \<open>stop_flag n\<close> is the value of \<open>self.stop_flag\<close>
  once the worker has completed \<open>n\<close> external calls (\<open>run_cmd\<close> and \<open>shutil.copy\<close>):
  the flag is set by the user-interface thread while the worker runs. \<open>run_cmd\<close> is the
  function of that name, which returns \<open>(ok, out, err)\<close> and never raises;
  \<open>new_tmpdir n\<close> is the directory \<open>tempfile.mkdtemp\<close> creates at that time.
\<close>

record worker_env =
  stop_flag :: "nat \<Rightarrow> bool"
  run_cmd :: "string list \<Rightarrow> bool \<times> string \<times> string"
  copy_file :: "string \<Rightarrow> string \<Rightarrow> string + unit"
  new_tmpdir :: "nat \<Rightarrow> string"

text \<open>\<open>xs.insert(i, x)\<close> of a Python list.\<close>

definition py_insert :: "'a list \<Rightarrow> int \<Rightarrow> 'a \<Rightarrow> 'a list" where
  "py_insert xs i x =
     (let n = int (length xs);
          j = (if i < 0 then max 0 (i + n) else min i n)
      in take (nat j) xs @ [x] @ drop (nat j) xs)"

text \<open>\<open>os.path.basename\<close> and the root part of \<open>os.path.splitext\<close> on POSIX paths.\<close>

definition basename :: "string \<Rightarrow> string" where
  "basename p = rev (takeWhile (\<lambda>c. c \<noteq> CHR ''/'') (rev p))"

definition splitext_root :: "string \<Rightarrow> string" where
  "splitext_root n =
     (if CHR ''.'' \<in> set n then
        (let pre = rev (tl (dropWhile (\<lambda>c. c \<noteq> CHR ''.'') (rev n)))
         in if \<exists>c \<in> set pre. c \<noteq> CHR ''.'' then pre else n)
      else n)"

definition outpath_of :: "string \<Rightarrow> string \<Rightarrow> string" where
  "outpath_of outdir src = path_join outdir (splitext_root (basename src) @ ''_landscape.mp4'')"

text \<open>Lines 497-507.\<close>

definition target_size :: "converter \<Rightarrow> int \<times> int" where
  "target_size cfg = (if res_var cfg = ''1080p'' then (1920, 1080) else (1280, 720))"

definition video_filter :: "converter \<Rightarrow> string" where
  "video_filter cfg =
     (case target_size cfg of (W, H) \<Rightarrow>
        if mode_var cfg = ''Blur'' then build_blur_vf W H (blur_var cfg)
        else if mode_var cfg = ''Letterbox'' then build_letterbox_vf W H (lb_color cfg)
        else build_zoom_vf W H (zoom_var cfg))"

text \<open>Lines 514-539: the command of step A.\<close>

definition cmdA :: "converter \<Rightarrow> string \<Rightarrow> string \<Rightarrow> string list" where
  "cmdA cfg src tmp_video =
     (case target_size cfg of (W, H) \<Rightarrow>
      let vf = video_filter cfg
      in case (case watermark_path cfg of Some w \<Rightarrow> if w \<noteq> [] then Some w else None
                                          | None \<Rightarrow> None) of
           Some wm \<Rightarrow>
             (let wm_scale_px = py_int (float64 (of_int W * wm_scale_var cfg));
                  wm_op = wm_opacity_text cfg;
                  pos = wm_pos_var cfg;
                  xy = (if pos = ''top-left'' then (''10'', ''10'')
                        else if pos = ''top-right'' then (''W-w-10'', ''10'')
                        else if pos = ''bottom-left'' then (''10'', ''H-h-10'')
                        else if pos = ''center'' then (''(W-w)/2'', ''(H-h)/2'')
                        else (''W-w-10'', ''H-h-10''));
                  filter_complex =
                    ''[1:v]scale='' @ str_int wm_scale_px
                      @ '':-2,format=rgba,colorchannelmixer=aa='' @ wm_op @ ''[wm];''
                    @ vf @ ''[base];''
                    @ ''[base][wm]overlay='' @ fst xy @ '':'' @ snd xy
              in [''ffmpeg'', ''-y'', ''-i'', src, ''-i'', wm, ''-filter_complex'', filter_complex,
                  ''-map'', ''0:v'', ''-c:v'', ''libx264'', ''-preset'', ''medium'',
                  ''-pix_fmt'', ''yuv420p'', ''-an'', tmp_video])
         | None \<Rightarrow>
             [''ffmpeg'', ''-y'', ''-i'', src, ''-vf'', vf, ''-c:v'', ''libx264'',
              ''-preset'', ''medium'', ''-pix_fmt'', ''yuv420p'', ''-an'', tmp_video])"

text \<open>Lines 553-566: the command that mixes the original audio with the background track.\<close>

definition amix_filter :: "string \<Rightarrow> string" where
  "amix_filter vol =
     ''[1:a]volume=1.0[a1];[2:a]volume='' @ vol
       @ ''[a2];[a1][a2]amix=inputs=2:duration=shortest[aout]''"

definition mix_cmd :: "converter \<Rightarrow> string \<Rightarrow> string \<Rightarrow> string \<Rightarrow> string \<Rightarrow> string list" where
  "mix_cmd cfg src tmp_video bgm outpath =
     (let vol = bgm_vol_text cfg; trim = bgm_trim_var cfg; loop = bgm_loop_var cfg
      in if loop then
           [''ffmpeg'', ''-y'', ''-i'', tmp_video, ''-i'', src, ''-stream_loop'', ''-1'', ''-i'', bgm,
            ''-filter_complex'', amix_filter vol,
            ''-map'', ''0:v'', ''-map'', ''[aout]'', ''-c:v'', ''copy'', ''-c:a'', ''aac'',
            ''-b:a'', ''192k'', outpath]
         else
           (let cmdB = [''ffmpeg'', ''-y'', ''-i'', tmp_video, ''-i'', src, ''-i'', bgm,
                        ''-filter_complex'', amix_filter vol,
                        ''-map'', ''0:v'', ''-map'', ''[aout]'', ''-c:v'', ''copy'', ''-c:a'', ''aac'',
                        ''-b:a'', ''192k''];
                cmdB1 = (if trim then py_insert cmdB (- 1) ''-shortest'' else cmdB)
            in cmdB1 @ [outpath]))"

text \<open>Lines 573-577: the command that replaces the audio with the background track.\<close>

definition fallback_cmd :: "converter \<Rightarrow> string \<Rightarrow> string \<Rightarrow> string \<Rightarrow> string list" where
  "fallback_cmd cfg tmp_video bgm outpath =
     (let fallback = [''ffmpeg'', ''-y'', ''-i'', tmp_video, ''-i'', bgm, ''-map'', ''0:v'',
                      ''-map'', ''1:a'', ''-c:v'', ''copy'', ''-c:a'', ''aac'', ''-b:a'', ''192k''];
          fallback1 = (if bgm_trim_var cfg then py_insert fallback (- 1) ''-shortest'' else fallback)
      in fallback1 @ [outpath])"

text \<open>Line 585: the command that keeps the original audio.\<close>

definition preserve_cmd :: "string \<Rightarrow> string \<Rightarrow> string \<Rightarrow> string list" where
  "preserve_cmd src tmp_video outpath =
     [''ffmpeg'', ''-y'', ''-i'', tmp_video, ''-i'', src, ''-map'', ''0:v'', ''-map'', ''1:a?'',
      ''-c:v'', ''copy'', ''-c:a'', ''aac'', ''-b:a'', ''160k'', outpath]"

text \<open>
  Lines 548-589, step B: the events, and the text of the exception if \<open>shutil.copy\<close>
  raised.
\<close>

definition last_resort :: "worker_env \<Rightarrow> string \<Rightarrow> string \<Rightarrow> event list \<times> string option" where
  "last_resort env tmp_video outpath =
     (case copy_file env tmp_video outpath of
        Inr _ \<Rightarrow> ([CopyFile tmp_video outpath True], None)
      | Inl ex \<Rightarrow> ([CopyFile tmp_video outpath False], Some ex))"

definition audio_stage ::
  "converter \<Rightarrow> worker_env \<Rightarrow> string \<Rightarrow> string \<Rightarrow> string \<Rightarrow> event list \<times> string option" where
  "audio_stage cfg env src tmp_video outpath =
     (case (case bgm_path cfg of Some b \<Rightarrow> if b \<noteq> [] then Some b else None | None \<Rightarrow> None) of
        Some bgm \<Rightarrow>
          (let cmdB = mix_cmd cfg src tmp_video bgm outpath;
               l1 = [Log ''Mixing audio and writing final output...'']
           in case run_cmd env cmdB of (ok2, o2, e2) \<Rightarrow>
                if ok2 then (l1 @ [RunCmd cmdB True], None)
                else
                  (let fallback = fallback_cmd cfg tmp_video bgm outpath;
                       l2 = l1 @ [RunCmd cmdB False, Log (''Audio mix failed: '' @ take 400 e2)]
                   in case run_cmd env fallback of (okf, of', ef) \<Rightarrow>
                        if okf then (l2 @ [RunCmd fallback True], None)
                        else
                          (let l3 = l2 @ [RunCmd fallback False,
                                          Log (''Fallback audio mux failed: '' @ take 400 ef)]
                           in case last_resort env tmp_video outpath of
                                (evs, exc) \<Rightarrow> (l3 @ evs, exc))))
      | None \<Rightarrow>
          (let cmdB = preserve_cmd src tmp_video outpath
           in case run_cmd env cmdB of (ok2, o2, e2) \<Rightarrow>
                if ok2 then ([RunCmd cmdB True], None)
                else
                  (let l2 = [RunCmd cmdB False,
                             Log (''Audio copy failed: '' @ take 400 e2
                                    @ ''; saving video-only instead.'')]
                   in case last_resort env tmp_video outpath of
                        (evs, exc) \<Rightarrow> (l2 @ evs, exc))))"

text \<open>
  Lines 491-602: one file, from \<open>Processing\<close> to the \<open>finally\<close> clause. The result is
  the events and whether control reaches line 604. A \<open>continue\<close> inside the \<open>try\<close>
  runs the \<open>finally\<close> clause as well, so the directory is removed a second time.
\<close>

definition convert_entry ::
  "converter \<Rightarrow> worker_env \<Rightarrow> string \<Rightarrow> string \<Rightarrow> nat \<Rightarrow> event list \<times> bool" where
  "convert_entry cfg env outdir src now =
     (let outpath = outpath_of outdir src;
          tmpdir = new_tmpdir env now;
          tmp_video = path_join tmpdir ''video_only.mp4'';
          c = cmdA cfg src tmp_video;
          l0 = [Log (''Processing: '' @ src), Mkdtemp tmpdir,
                Log ''Rendering video-only to temp file...'']
      in case run_cmd env c of (ok, out, err) \<Rightarrow>
           if \<not> ok then
             (l0 @ [RunCmd c False, Log (''Video render failed: '' @ take 400 err),
                    Rmtree_tmp tmpdir, Rmtree_tmp tmpdir], False)
           else
             (case audio_stage cfg env src tmp_video outpath of
                (evs, Some ex) \<Rightarrow>
                  (l0 @ [RunCmd c True] @ evs
                     @ [Log (''Exception while converting '' @ src @ '': '' @ ex),
                        Rmtree_tmp tmpdir, Rmtree_tmp tmpdir], False)
              | (evs, None) \<Rightarrow>
                  (l0 @ [RunCmd c True] @ evs @ [Rmtree_tmp tmpdir], True)))"

text \<open>The external calls among some events: each advances the worker's clock by one.\<close>

fun is_call :: "event \<Rightarrow> bool" where
  "is_call (RunCmd _ _) = True"
| "is_call (CopyFile _ _ _) = True"
| "is_call _ = False"

record worker_state =
  now :: nat
  done_count :: int
  events :: "event list"

text \<open>Lines 486-607: the loop over the selected files; \<open>total_files\<close> is the \<open>total\<close> of line 484.\<close>

fun worker_loop ::
  "converter \<Rightarrow> worker_env \<Rightarrow> string \<Rightarrow> int \<Rightarrow> string list \<Rightarrow> worker_state \<Rightarrow> worker_state" where
  "worker_loop cfg env outdir total_files [] st = st"
| "worker_loop cfg env outdir total_files (src # rest) st =
     (if stop_flag env (now st) then
        st\<lparr>events := events st @ [Poll True, Log ''Stopped by user.'']\<rparr>
      else
        (case convert_entry cfg env outdir src (now st) of
           (evs, reached) \<Rightarrow>
             (let t = now st + length (filter is_call evs)
              in if reached then
                   (let d = done_count st + 1
                    in worker_loop cfg env outdir total_files rest
                         \<lparr>now = t, done_count = d,
                          events = events st @ [Poll False] @ evs
                            @ [SetOverall (percent d total_files), SetCurrent 0,
                               Log (''Saved: '' @ outpath_of outdir src)]\<rparr>)
                 else
                   worker_loop cfg env outdir total_files rest
                     \<lparr>now = t, done_count = done_count st,
                      events = events st @ [Poll False] @ evs\<rparr>)))"

text \<open>Lines 609-612: what follows the loop, whether it ended or was left by \<open>break\<close>.\<close>

definition completion :: "int \<Rightarrow> int \<Rightarrow> event list" where
  "completion d total_files =
     [SetStatus ''Done'', EnableConvert,
      Log (''Completed '' @ str_int d @ ''/'' @ str_int total_files @ '' files.''),
      ShowInfo ''Done'' (''Finished '' @ str_int d @ ''/'' @ str_int total_files @ '' files.'')]"

definition worker_convert :: "converter \<Rightarrow> worker_env \<Rightarrow> string list \<Rightarrow> string \<Rightarrow> event list" where
  "worker_convert cfg env entries outdir =
     (let total_files = int (length entries);
          st = worker_loop cfg env outdir total_files entries \<lparr>now = 0, done_count = 0, events = []\<rparr>
      in events st @ completion (done_count st) total_files)"

text \<open>Reads of the stop flag, and the completion report (status line and dialog).\<close>

fun is_poll :: "event \<Rightarrow> bool" where
  "is_poll (Poll _) = True"
| "is_poll _ = False"

fun is_report :: "event \<Rightarrow> bool" where
  "is_report (SetStatus _) = True"
| "is_report (ShowInfo _ _) = True"
| "is_report _ = False"

section \<open>Concrete inputs\<close>

text \<open>
  A Pillow stand-in whose resampled images are uniformly grey, a one-pixel image, a
  wide image, and surroundings in which the encoder always fails.
\<close>

definition flat_lib :: pil_lib where
  "flat_lib = \<lparr>crop_px = (\<lambda>img bx. []),
               resize_px = (\<lambda>img sz flt. replicate (nat (fst sz * snd sz * 3)) 128)\<rparr>"

definition dot_image :: pil_image where
  "dot_image = \<lparr>pil_size = (1, 1), rgb = [10, 20, 30]\<rparr>"

definition wide_image :: pil_image where
  "wide_image = \<lparr>pil_size = (5, 2), rgb = replicate 30 7\<rparr>"

definition failing_encoder_env :: "bool \<Rightarrow> slideshow_env" where
  "failing_encoder_env move_ok =
     \<lparr>image_open = (\<lambda>name. if name = ''a.jpg'' then Inr dot_image
                             else Inl ''cannot identify image file''),
      pillow = flat_lib,
      mkdtemp = ''/tmp/thumbvid_x'',
      writer_isOpened = (\<lambda>codec. codec = ''mp4v''),
      path_exists = (\<lambda>p. True),
      run_ffmpeg = (\<lambda>cmd. Inl ''encoder missing''),
      shutil_move = (\<lambda>src dst. if move_ok then Inr () else Inl ''disk full''),
      shutil_copy = (\<lambda>src dst. Inl ''disk full'')\<rparr>"

definition tall_image :: pil_image where
  "tall_image = \<lparr>pil_size = (2, 5), rgb = replicate 30 7\<rparr>"

definition dark_frame :: ndarray where
  "dark_frame = \<lparr>shape = (1, 1), px = [0, 10, 255]\<rparr>"

definition light_frame :: ndarray where
  "light_frame = \<lparr>shape = (1, 1), px = [255, 20, 0]\<rparr>"

text \<open>
  The converter with its default settings (\<open>DEFAULT_SETTINGS\<close>) and a background
  track chosen, and three surroundings: one in which the flag is set while the first
  command runs and only the video-only render succeeds, one in which the flag is set
  from the start, and one in which the flag is never set and every command fails.
\<close>

definition default_cfg :: converter where
  "default_cfg =
     \<lparr>res_var = ''1080p'', mode_var = ''Blur'', blur_var = 20, lb_color = ''#000000'',
      zoom_var = 21 / 20, watermark_path = None, wm_scale_var = 3 / 20,
      wm_opacity_text = ''0.8'', wm_pos_var = ''bottom-right'',
      bgm_path = Some ''/music/bgm.mp3'', bgm_vol_text = ''1.0'',
      bgm_trim_var = True, bgm_loop_var = False\<rparr>"

definition stop_midway_env :: worker_env where
  "stop_midway_env =
     \<lparr>stop_flag = (\<lambda>n. 1 \<le> n),
      run_cmd = (\<lambda>cmd. (''-an'' \<in> set cmd, [], ''error'')),
      copy_file = (\<lambda>src dst. Inr ()),
      new_tmpdir = (\<lambda>n. ''/tmp/p2l_x'')\<rparr>"

definition stopped_env :: worker_env where
  "stopped_env =
     \<lparr>stop_flag = (\<lambda>n. True),
      run_cmd = (\<lambda>cmd. (True, [], [])),
      copy_file = (\<lambda>src dst. Inr ()),
      new_tmpdir = (\<lambda>n. ''/tmp/p2l_x'')\<rparr>"

definition failing_env :: worker_env where
  "failing_env =
     \<lparr>stop_flag = (\<lambda>n. False),
      run_cmd = (\<lambda>cmd. (False, [], ''error'')),
      copy_file = (\<lambda>src dst. Inl ''disk full''),
      new_tmpdir = (\<lambda>n. ''/tmp/p2l_x'')\<rparr>"

section \<open>Properties of the rounding model\<close>

lemma round_half_even_of_int: "round_half_even (of_int m) = m"
  by (simp add: round_half_even_def)

lemma round_half_even_error: "\<bar>of_int (round_half_even y) - y\<bar> \<le> 1 / 2"
proof -
  have "of_int \<lfloor>y\<rfloor> \<le> y" "y < of_int \<lfloor>y\<rfloor> + 1" by linarith+
  then show ?thesis
    by (auto simp add: round_half_even_def Let_def abs_le_iff)
qed

lemma round_half_even_nonneg: "0 \<le> y \<Longrightarrow> 0 \<le> round_half_even y"
  by (auto simp add: round_half_even_def Let_def)

lemma ilog2_bounds:
  assumes "x \<noteq> 0"
  shows "2 powi (ilog2 x) \<le> \<bar>x\<bar> \<and> \<bar>x\<bar> < 2 powi (ilog2 x + 1)"
proof -
  obtain n d where q: "quotient_of \<bar>x\<bar> = (n, d)" by (cases "quotient_of \<bar>x\<bar>")
  have d: "0 < d" using quotient_of_denom_pos[OF q] .
  have x: "\<bar>x\<bar> = of_int n / of_int d" using quotient_of_div[OF q] .
  have n: "0 < n"
  proof -
    have "0 < \<bar>x\<bar>" using assms by simp
    then have "0 < (of_int n / of_int d :: rat)" using x by simp
    then show ?thesis using d by (simp add: zero_less_divide_iff)
  qed
  define bn where "bn = bitlen n"
  define bd where "bd = bitlen d"
  have bn: "2 ^ nat (bn - 1) \<le> n" "n < 2 ^ nat bn" using bitlen_bounds[OF n] by (simp_all add: bn_def)
  have bd: "2 ^ nat (bd - 1) \<le> d" "d < 2 ^ nat bd" using bitlen_bounds[OF d] by (simp_all add: bd_def)
  have bn1: "1 \<le> bn" using n bitlen_nonneg[of n] bitlen_eq_zero_iff[of n] by (simp add: bn_def)
  have bd1: "1 \<le> bd" using d bitlen_nonneg[of d] bitlen_eq_zero_iff[of d] by (simp add: bd_def)
  have pn: "(2::rat) powi (bn - 1) \<le> of_int n" "(of_int n :: rat) < 2 powi bn"
  proof -
    have "(of_int (2 ^ nat (bn - 1)) :: rat) \<le> of_int n" using bn(1) by (simp only: of_int_le_iff)
    then show "(2::rat) powi (bn - 1) \<le> of_int n" using bn1 by (simp add: power_int_def)
    have "(of_int n :: rat) < of_int (2 ^ nat bn)" using bn(2) by (simp only: of_int_less_iff)
    then show "(of_int n :: rat) < 2 powi bn" using bn1 by (simp add: power_int_def)
  qed
  have pd: "(2::rat) powi (bd - 1) \<le> of_int d" "(of_int d :: rat) < 2 powi bd"
  proof -
    have "(of_int (2 ^ nat (bd - 1)) :: rat) \<le> of_int d" using bd(1) by (simp only: of_int_le_iff)
    then show "(2::rat) powi (bd - 1) \<le> of_int d" using bd1 by (simp add: power_int_def)
    have "(of_int d :: rat) < of_int (2 ^ nat bd)" using bd(2) by (simp only: of_int_less_iff)
    then show "(of_int d :: rat) < 2 powi bd" using bd1 by (simp add: power_int_def)
  qed
  have dpos: "(0::rat) < of_int d" using d by simp
  have npos: "(0::rat) < of_int n" using n by simp
  have up: "\<bar>x\<bar> < 2 powi (bn - bd + 1)"
  proof -
    have "of_int n / of_int d < (2::rat) powi bn / of_int d"
      using pn(2) dpos by (simp add: divide_strict_right_mono)
    also have "\<dots> \<le> 2 powi bn / 2 powi (bd - 1)"
      using pd(1) dpos by (intro divide_left_mono) (simp_all add: zero_less_power_int mult_pos_pos)
    also have "\<dots> = 2 powi (bn - bd + 1)"
      by (simp add: power_int_diff[symmetric] algebra_simps)
    finally show ?thesis using x by simp
  qed
  have lo: "2 powi (bn - bd - 1) \<le> \<bar>x\<bar>"
  proof -
    have "(2::rat) powi (bn - bd - 1) = 2 powi (bn - 1) / 2 powi bd"
      by (simp add: power_int_diff[symmetric] algebra_simps)
    also have "\<dots> \<le> of_int n / 2 powi bd"
      using pn(1) by (intro divide_right_mono) simp_all
    also have "\<dots> \<le> of_int n / of_int d"
      using pd(2) dpos npos by (intro divide_left_mono) (simp_all add: zero_less_power_int)
    finally show ?thesis using x by simp
  qed
  show ?thesis
  proof (cases "2 powi (bn - bd) \<le> \<bar>x\<bar>")
    case True
    then have "ilog2 x = bn - bd" by (simp add: ilog2_def q bn_def bd_def Let_def)
    with True up show ?thesis by simp
  next
    case False
    then have "ilog2 x = bn - bd - 1" by (simp add: ilog2_def q bn_def bd_def Let_def)
    with False lo show ?thesis by simp
  qed
qed

lemma fl_zero: "fl p 0 = 0"
  by (simp add: fl_def)

lemma fl_nonneg: "0 \<le> x \<Longrightarrow> 0 \<le> fl p x"
  by (auto simp add: fl_def Let_def intro!: mult_nonneg_nonneg round_half_even_nonneg divide_nonneg_nonneg)

lemma fl_error:
  "\<bar>fl p x - x\<bar> \<le> \<bar>x\<bar> / 2 ^ p"
proof (cases "x = 0")
  case True
  then show ?thesis by (simp add: fl_def)
next
  case False
  define e where "e = ilog2 x"
  define q :: rat where "q = 2 powi (e - int p + 1)"
  have q: "0 < q" by (simp add: q_def zero_less_power_int)
  have flx: "fl p x = of_int (round_half_even (x / q)) * q"
    using False by (simp add: fl_def Let_def q_def e_def)
  have "fl p x - x = (of_int (round_half_even (x / q)) - x / q) * q"
    using q by (simp add: flx algebra_simps)
  then have "\<bar>fl p x - x\<bar> = \<bar>of_int (round_half_even (x / q)) - x / q\<bar> * q"
    using q by (simp add: abs_mult)
  also have "\<dots> \<le> (1 / 2) * q"
    using round_half_even_error[of "x / q"] q by (intro mult_right_mono) simp_all
  also have "\<dots> = 2 powi e / 2 ^ p"
    by (simp add: q_def power_int_diff power_int_add)
  also have "\<dots> \<le> \<bar>x\<bar> / 2 ^ p"
    using ilog2_bounds[OF False] by (intro divide_right_mono) (simp_all add: e_def)
  finally show ?thesis .
qed

lemma fl_of_int:
  assumes "\<bar>n\<bar> < 2 ^ p"
  shows "fl p (of_int n) = of_int n"
proof (cases "n = 0")
  case True
  then show ?thesis by (simp add: fl_def)
next
  case False
  define x :: rat where "x = of_int n"
  have x0: "x \<noteq> 0" using False by (simp add: x_def)
  define e where "e = ilog2 x"
  have b: "2 powi e \<le> \<bar>x\<bar>" "\<bar>x\<bar> < 2 powi (e + 1)" using ilog2_bounds[OF x0] by (simp_all add: e_def)
  have ax: "\<bar>x\<bar> < 2 ^ p"
  proof -
    have "(of_int \<bar>n\<bar> :: rat) < of_int (2 ^ p)" using assms by (simp only: of_int_less_iff)
    then show ?thesis by (simp add: x_def)
  qed
  have "(2::rat) powi e < 2 powi (int p)" using b(1) ax by simp
  then have ep: "e < int p"
    by (metis not_le power_int_increasing one_le_numeral not_less)
  define k where "k = nat (int p - 1 - e)"
  have k: "e - int p + 1 = - int k" using ep by (simp add: k_def)
  have q: "(2::rat) powi (e - int p + 1) = 1 / 2 ^ k"
    unfolding k by (simp add: power_int_minus field_simps)
  have "rat_of_int n * 2 ^ k = of_int (n * 2 ^ k)" by simp
  then have r: "round_half_even (rat_of_int n * 2 ^ k) = n * 2 ^ k"
    by (simp only: round_half_even_of_int)
  have "fl p x = of_int (round_half_even (x / (1 / 2 ^ k))) * (1 / 2 ^ k)"
    using x0 by (simp add: fl_def Let_def e_def[symmetric] q)
  also have "\<dots> = of_int (n * 2 ^ k) / 2 ^ k"
    by (simp add: x_def r)
  also have "\<dots> = of_int n" by simp
  finally show ?thesis by (simp add: x_def)
qed


lemma fl_upper:
  assumes "0 \<le> x"
  shows "fl p x \<le> x * (1 + 1 / 2 ^ p)"
proof -
  have "fl p x - x \<le> \<bar>x\<bar> / 2 ^ p" using fl_error[of p x] by (simp add: abs_le_iff)
  then show ?thesis using assms by (simp add: algebra_simps)
qed

lemma fl_lower:
  assumes "0 \<le> x"
  shows "x * (1 - 1 / 2 ^ p) \<le> fl p x"
proof -
  have "x - fl p x \<le> \<bar>x\<bar> / 2 ^ p" using fl_error[of p x] by (simp add: abs_le_iff)
  then show ?thesis using assms by (simp add: algebra_simps)
qed

lemma fl_pos:
  assumes "0 < x" "0 < p"
  shows "0 < fl p x"
proof -
  have "(1::rat) < 2 ^ p" using assms(2) by (simp add: one_less_power)
  then have "0 < (1::rat) - 1 / 2 ^ p" by simp
  then have "0 < x * (1 - 1 / 2 ^ p)" using assms(1) by simp
  then show ?thesis using fl_lower[of x p] assms(1) by simp
qed

lemma float64_simps: "float64 0 = 0" "float64 1 = 1"
  using fl_of_int[of 0 53] fl_of_int[of 1 53] by (simp_all add: float64_def)

lemma float32_simps: "float32 0 = 0" "float32 1 = 1"
  using fl_of_int[of 0 24] fl_of_int[of 1 24] by (simp_all add: float32_def)

lemma py_int_nonneg: "0 \<le> x \<Longrightarrow> py_int x = \<lfloor>x\<rfloor>"
  by (simp add: py_int_def)

lemma py_int_nonneg_ge: "0 \<le> x \<Longrightarrow> 0 \<le> py_int x"
  by (simp add: py_int_def)

lemma target_ratio_pos:
  assumes "0 < tw" "0 < th"
  shows "0 < float64 (of_int tw / of_int th)"
  unfolding float64_def using assms by (intro fl_pos) simp_all

section \<open>Properties of the frame compositor\<close>

subsection \<open>Rounding error of a product and of a quotient\<close>

lemma float64_rel:
  assumes "0 \<le> x"
  shows "x * (1 - 1 / 2 ^ 53) \<le> float64 x" "float64 x \<le> x * (1 + 1 / 2 ^ 53)" "0 \<le> float64 x"
  unfolding float64_def using assms fl_lower[of x 53] fl_upper[of x 53] fl_nonneg[of x 53] by simp_all

lemma float32_rel:
  assumes "0 \<le> x"
  shows "float32 x \<le> x * (1 + 1 / 2 ^ 24)" "0 \<le> float32 x"
  unfolding float32_def using assms fl_upper[of x 24] fl_nonneg[of x 24] by simp_all

lemma product_bounds:
  assumes h: "0 \<le> h" and R: "0 < R"
  shows "h * R * (1 - 3 / 2 ^ 53) \<le> float64 (h * float64 R)"
    and "float64 (h * float64 R) \<le> h * R * (1 + 3 / 2 ^ 53)"
proof -
  define u :: rat where "u = 1 / 2 ^ 53"
  have u: "0 < u" "u \<le> 1 / 3" by (simp_all add: u_def)
  define r where "r = float64 R"
  have r: "R * (1 - u) \<le> r" "r \<le> R * (1 + u)" "0 \<le> r"
    using float64_rel[of R] R by (simp_all add: r_def u_def)
  have x0: "0 \<le> h * r" using h r(3) by simp
  have y: "h * r * (1 - u) \<le> float64 (h * r)" "float64 (h * r) \<le> h * r * (1 + u)"
    using float64_rel[OF x0] by (simp_all add: u_def)
  have E0: "0 \<le> h * R" using h R by simp
  have "h * R * (1 - 3 * u) \<le> h * R * ((1 - u) * (1 - u))"
    using E0 u by (intro mult_left_mono) (simp_all add: algebra_simps)
  also have "\<dots> = h * (R * (1 - u)) * (1 - u)" by simp
  also have "\<dots> \<le> h * r * (1 - u)"
    using r(1) h u by (intro mult_right_mono mult_left_mono) simp_all
  also have "\<dots> \<le> float64 (h * r)" by (rule y(1))
  finally show "h * R * (1 - 3 / 2 ^ 53) \<le> float64 (h * float64 R)"
    by (simp add: u_def r_def)
  have "float64 (h * r) \<le> h * r * (1 + u)" by (rule y(2))
  also have "\<dots> \<le> h * (R * (1 + u)) * (1 + u)"
    using r(2) h u by (intro mult_right_mono mult_left_mono) simp_all
  also have "\<dots> = h * R * ((1 + u) * (1 + u))" by simp
  also have "\<dots> \<le> h * R * (1 + 3 * u)"
  proof -
    have "u * u \<le> u * 1" using u by (intro mult_left_mono) simp_all
    then have "(1 + u) * (1 + u) \<le> 1 + 3 * u" by (simp add: algebra_simps)
    then show ?thesis using E0 by (intro mult_left_mono)
  qed
  finally show "float64 (h * float64 R) \<le> h * R * (1 + 3 / 2 ^ 53)"
    by (simp add: u_def r_def)
qed

lemma quotient_bounds:
  assumes w: "0 \<le> w" and R: "0 < R"
  shows "w / R * (1 - 3 / 2 ^ 53) \<le> float64 (w / float64 R)"
    and "float64 (w / float64 R) \<le> w / R * (1 + 3 / 2 ^ 53)"
proof -
  define u :: rat where "u = 1 / 2 ^ 53"
  have u: "0 < u" "u \<le> 1 / 3" by (simp_all add: u_def)
  define r where "r = float64 R"
  have r: "R * (1 - u) \<le> r" "r \<le> R * (1 + u)"
    using float64_rel[of R] R by (simp_all add: r_def u_def)
  have lo: "0 < R * (1 - u)" using R u by simp
  have rpos: "0 < r" using lo r(1) by simp
  have hi: "0 < R * (1 + u)" using R u by simp
  have x0: "0 \<le> w / r" using w rpos by simp
  have y: "w / r * (1 - u) \<le> float64 (w / r)" "float64 (w / r) \<le> w / r * (1 + u)"
    using float64_rel[OF x0] by (simp_all add: u_def)
  have E0: "0 \<le> w / R" using w R by simp
  have x_hi: "w / r \<le> w / (R * (1 - u))"
    using r(1) w lo rpos by (intro divide_left_mono) simp_all
  have x_lo: "w / (R * (1 + u)) \<le> w / r"
    using r(2) w hi rpos by (intro divide_left_mono) simp_all
  have c1: "(1 - 3 * u) * (1 + u) \<le> 1 - u"
  proof -
    have "0 \<le> u + u * (u * 3)"
      using u by (intro add_nonneg_nonneg mult_nonneg_nonneg) simp_all
    then show ?thesis by (simp add: algebra_simps)
  qed
  have c2: "1 + u \<le> (1 + 3 * u) * (1 - u)"
  proof -
    have "u * u \<le> u * (1 / 3)" using u by (intro mult_left_mono) simp_all
    then show ?thesis by (simp add: algebra_simps)
  qed
  have up: "1 + u \<noteq> 0" "1 - u \<noteq> 0" using u by simp_all
  have e1: "w / (R * (1 + u)) * (k * (1 + u)) = w / R * k" for k
  proof -
    have "w / (R * (1 + u)) * (k * (1 + u)) = w / R * k * ((1 + u) / (1 + u))" by simp
    then show ?thesis using up(1) by simp
  qed
  have e2: "w / (R * (1 - u)) * (k * (1 - u)) = w / R * k" for k
  proof -
    have "w / (R * (1 - u)) * (k * (1 - u)) = w / R * k * ((1 - u) / (1 - u))" by simp
    then show ?thesis using up(2) by simp
  qed
  have "w / R * (1 - 3 * u) = w / (R * (1 + u)) * ((1 - 3 * u) * (1 + u))"
    by (simp only: e1)
  also have "\<dots> \<le> w / (R * (1 + u)) * (1 - u)"
    using c1 w hi by (intro mult_left_mono) simp_all
  also have "\<dots> \<le> w / r * (1 - u)"
    using x_lo u by (intro mult_right_mono) simp_all
  also have "\<dots> \<le> float64 (w / r)" by (rule y(1))
  finally show "w / R * (1 - 3 / 2 ^ 53) \<le> float64 (w / float64 R)"
    by (simp add: u_def r_def)
  have "float64 (w / r) \<le> w / r * (1 + u)" by (rule y(2))
  also have "\<dots> \<le> w / (R * (1 - u)) * (1 + u)"
    using x_hi u by (intro mult_right_mono) simp_all
  also have "\<dots> \<le> w / (R * (1 - u)) * ((1 + 3 * u) * (1 - u))"
    using c2 w lo by (intro mult_left_mono) simp_all
  also have "\<dots> = w / R * (1 + 3 * u)"
    by (simp only: e2)
  finally show "float64 (w / float64 R) \<le> w / R * (1 + 3 / 2 ^ 53)"
    by (simp add: u_def r_def)
qed

subsection \<open>Cross-fade blend\<close>

lemma f32_range: "0 \<le> astype_float32 a" "astype_float32 a \<le> 255"
proof -
  have "unat a < 256" using unsigned_less [of a, where 'a = nat] by simp
  then have "unat a \<le> 255" by simp
  then have "(of_nat (unat a) :: rat) \<le> of_nat 255" by (rule of_nat_mono)
  then show "astype_float32 a \<le> 255" unfolding astype_float32_def by simp
  show "0 \<le> astype_float32 a" unfolding astype_float32_def by (rule of_nat_0_le_iff)
qed

lemma py_int_f32: "py_int (astype_float32 a) = int (unat a)"
proof -
  have "\<not> (of_nat (unat a) :: rat) < 0" by (simp only: not_less of_nat_0_le_iff)
  then show ?thesis by (simp only: py_int_def astype_float32_def if_False floor_of_nat)
qed

lemma float32_pixel: "float32 (astype_float32 a) = astype_float32 a"
proof -
  have "uint a < 2 ^ 8" using unsigned_less [of a, where 'a = int] by simp
  moreover have "0 \<le> uint a" by simp
  ultimately have "\<bar>uint a\<bar> < 2 ^ 24" by simp
  from fl_of_int[OF this] have "fl 24 (of_int (uint a)) = of_int (uint a)" .
  moreover have "astype_float32 a = of_int (uint a)" by (simp add: astype_float32_def)
  ultimately show ?thesis by (simp only: float32_def)
qed

lemma mix_px_endpoints:
  "mix_px a b 0 = astype_float32 a" "mix_px a b 1 = astype_float32 b"
  by (simp_all add: mix_px_def float64_simps float32_simps float32_pixel)

lemma blend_px_endpoints: "blend_px a b 0 = a" "blend_px a b 1 = b"
  by (simp_all add: blend_px_def mix_px_endpoints astype_uint8_def py_int_f32)

lemma map2_fst: "length xs = length ys \<Longrightarrow> map2 (\<lambda>a b. a) xs ys = xs"
  by (induction xs ys rule: list_induct2) simp_all

lemma map2_snd: "length xs = length ys \<Longrightarrow> map2 (\<lambda>a b. b) xs ys = ys"
  by (induction xs ys rule: list_induct2) simp_all

lemma blend_zero:
  assumes "length (px A) = length (px B)"
  shows "blend A B 0 = A"
  using assms by (simp add: blend_def blend_px_endpoints map2_fst)

lemma blend_one:
  assumes "length (px A) = length (px B)" "shape A = shape B"
  shows "blend A B 1 = B"
  using assms by (simp add: blend_def blend_px_endpoints map2_snd)

lemma mix_bounds:
  assumes "0 \<le> alpha" "alpha \<le> 1"
  shows "0 \<le> mix_px a b alpha" "mix_px a b alpha < 256"
proof -
  define c :: rat where "c = 1 + 1 / 2 ^ 24"
  define d :: rat where "d = 1 + 1 / 2 ^ 53"
  have c: "1 \<le> c" "0 \<le> c" and d: "1 \<le> d" "0 \<le> d" by (simp_all add: c_def d_def)
  define A where "A = astype_float32 a"
  define B where "B = astype_float32 b"
  have A: "0 \<le> A" "A \<le> 255" and B: "0 \<le> B" "B \<le> 255"
    using f32_range[of a] f32_range[of b] by (simp_all add: A_def B_def)
  define om where "om = float64 (1 - alpha)"
  have om: "0 \<le> om" "om \<le> (1 - alpha) * d"
    using float64_rel(2,3)[of "1 - alpha"] assms by (simp_all add: om_def d_def)
  define om32 where "om32 = float32 om"
  have om32: "0 \<le> om32" "om32 \<le> om * c"
    using float32_rel[OF om(1)] by (simp_all add: om32_def c_def)
  define al32 where "al32 = float32 alpha"
  have al32: "0 \<le> al32" "al32 \<le> alpha * c"
    using float32_rel[OF assms(1)] by (simp_all add: al32_def c_def)
  define t1 where "t1 = float32 (A * om32)"
  have t1: "0 \<le> t1" "t1 \<le> A * om32 * c"
    using float32_rel[of "A * om32"] A(1) om32(1) by (simp_all add: t1_def c_def)
  define t2 where "t2 = float32 (B * al32)"
  have t2: "0 \<le> t2" "t2 \<le> B * al32 * c"
    using float32_rel[of "B * al32"] B(1) al32(1) by (simp_all add: t2_def c_def)
  have s: "mix_px a b alpha = float32 (t1 + t2)"
    by (simp add: mix_px_def t1_def t2_def om32_def al32_def om_def A_def B_def)
  have s0: "0 \<le> t1 + t2" using t1(1) t2(1) by simp
  have sb: "0 \<le> float32 (t1 + t2)" "float32 (t1 + t2) \<le> (t1 + t2) * c"
    using float32_rel[OF s0] by (simp_all add: c_def)
  show "0 \<le> mix_px a b alpha" using sb(1) s by simp
  have "om32 \<le> (1 - alpha) * d * c"
  proof -
    have "om * c \<le> (1 - alpha) * d * c" using om(2) c(2) by (intro mult_right_mono)
    with om32(2) show ?thesis by simp
  qed
  then have "A * om32 \<le> 255 * ((1 - alpha) * d * c)"
    using A om32(1) by (intro mult_mono) simp_all
  then have "A * om32 * c \<le> 255 * ((1 - alpha) * d * c) * c"
    using c(2) by (intro mult_right_mono)
  with t1(2) have b1: "t1 \<le> 255 * ((1 - alpha) * d * c) * c" by (rule order_trans)
  have "alpha * c \<le> alpha * d * c"
  proof -
    have "alpha * 1 \<le> alpha * d" using d(1) assms(1) by (intro mult_left_mono)
    then show ?thesis using c(2) by (simp add: mult_right_mono)
  qed
  with al32(2) have "al32 \<le> alpha * d * c" by simp
  then have "B * al32 \<le> 255 * (alpha * d * c)"
    using B al32(1) by (intro mult_mono) simp_all
  then have "B * al32 * c \<le> 255 * (alpha * d * c) * c"
    using c(2) by (intro mult_right_mono)
  with t2(2) have b2: "t2 \<le> 255 * (alpha * d * c) * c" by (rule order_trans)
  have "t1 + t2 \<le> 255 * ((1 - alpha) * d * c) * c + 255 * (alpha * d * c) * c"
    using b1 b2 by (rule add_mono)
  also have "\<dots> = 255 * d * c * c" by (simp add: algebra_simps)
  finally have "(t1 + t2) * c \<le> 255 * d * c * c * c" using c(2) by (intro mult_right_mono)
  with sb(2) have "float32 (t1 + t2) \<le> 255 * d * c * c * c" by simp
  moreover have "255 * d * c * c * c < 256" unfolding c_def d_def by code_simp
  ultimately show "mix_px a b alpha < 256" using s by simp
qed

lemma blend_px_floor:
  assumes "0 \<le> alpha" "alpha \<le> 1"
  shows "int (unat (blend_px a b alpha)) = \<lfloor>mix_px a b alpha\<rfloor>"
proof -
  note m = mix_bounds[OF assms, of a b]
  have f: "0 \<le> \<lfloor>mix_px a b alpha\<rfloor>" "\<lfloor>mix_px a b alpha\<rfloor> \<le> 255"
    using m by (simp_all add: floor_le_iff le_floor_iff floor_less_iff) 
  have "uint (word_of_int \<lfloor>mix_px a b alpha\<rfloor> :: 8 word) = \<lfloor>mix_px a b alpha\<rfloor>"
    using f by (simp add: uint_word_of_int)
  then show ?thesis using f m
    by (simp add: blend_px_def astype_uint8_def py_int_def)
qed

text \<open>
  The model reproduces the \<open>float32\<close> arithmetic of line 220: two equal pixels of
  value 7 blend to 6 at the first of ten cross-fade frames, and a pixel of value 108
  fades to 62 (not 63) at blend factor 5/12 towards black.
\<close>

lemma blend_px_float32_examples:
  "blend_px 7 7 (alpha_of 10 0) = 6" "blend_px 108 0 (float64 (5 / 12)) = 62"
  by code_simp+

text \<open>
  C3 (as amended). For two frames of the same shape, the blend at \<open>alpha = 0\<close> is
  frame A and the blend at \<open>alpha = 1\<close> is frame B, exactly. For \<open>alpha\<close> in
  \<open>[0, 1]\<close> the \<open>float32\<close> intermediate of every pixel lies in \<open>[0, 256)\<close>, so the
  narrowing to 8 bits does not wrap, and the output pixel is that intermediate
  truncated, not rounded, to an integer.
\<close>

theorem blend_endpoints_and_truncation:
  assumes "length (px A) = length (px B)" and "shape A = shape B"
  shows "blend A B 0 = A \<and> blend A B 1 = B \<and>
     (\<forall>alpha i. 0 \<le> alpha \<and> alpha \<le> 1 \<and> i < length (px A) \<longrightarrow>
        0 \<le> mix_px (px A ! i) (px B ! i) alpha \<and> mix_px (px A ! i) (px B ! i) alpha < 256 \<and>
        int (unat (px (blend A B alpha) ! i)) = \<lfloor>mix_px (px A ! i) (px B ! i) alpha\<rfloor>)"
proof -
  have "blend A B 0 = A" using assms by (simp add: blend_zero)
  moreover have "blend A B 1 = B" using assms by (simp add: blend_one)
  moreover have "0 \<le> mix_px (px A ! i) (px B ! i) alpha \<and> mix_px (px A ! i) (px B ! i) alpha < 256 \<and>
      int (unat (px (blend A B alpha) ! i)) = \<lfloor>mix_px (px A ! i) (px B ! i) alpha\<rfloor>"
    if "0 \<le> alpha" "alpha \<le> 1" "i < length (px A)" for alpha i
  proof -
    have "px (blend A B alpha) ! i = blend_px (px A ! i) (px B ! i) alpha"
      using that(3) assms(1) by (simp add: blend_def)
    then show ?thesis
      using mix_bounds[OF that(1,2), of "px A ! i" "px B ! i"]
            blend_px_floor[OF that(1,2), of "px A ! i" "px B ! i"]
      by (simp only: simp_thms)
  qed
  ultimately show ?thesis by blast
qed

theorem blend_endpoints_and_truncation_witness:
  "blend dark_frame light_frame 0 = dark_frame \<and> blend dark_frame light_frame 1 = light_frame \<and>
   int (unat (px (blend dark_frame light_frame (1 / 2)) ! 0)) = 127"
proof -
  have m: "\<lfloor>mix_px 0 255 (1 / 2)\<rfloor> = 127" by code_simp
  have h: "length (px dark_frame) = length (px light_frame)" "shape dark_frame = shape light_frame"
    by (simp_all add: dark_frame_def light_frame_def)
  from blend_endpoints_and_truncation[OF h] have
    e: "blend dark_frame light_frame 0 = dark_frame" "blend dark_frame light_frame 1 = light_frame"
    and a: "\<And>alpha i. 0 \<le> alpha \<Longrightarrow> alpha \<le> 1 \<Longrightarrow> i < length (px dark_frame) \<Longrightarrow>
        int (unat (px (blend dark_frame light_frame alpha) ! i))
          = \<lfloor>mix_px (px dark_frame ! i) (px light_frame ! i) alpha\<rfloor>"
    by blast+
  have "int (unat (px (blend dark_frame light_frame (1 / 2)) ! 0))
          = \<lfloor>mix_px (px dark_frame ! 0) (px light_frame ! 0) (1 / 2)\<rfloor>"
    by (rule a) (simp_all add: dark_frame_def)
  then have "int (unat (px (blend dark_frame light_frame (1 / 2)) ! 0)) = 127"
    by (simp add: dark_frame_def light_frame_def m)
  with e show ?thesis by simp
qed

text \<open>
  C3 as stated fails: for the first of two cross-fade frames (\<open>alpha = 1/2\<close>), a black
  pixel blended with a pixel of value 255 gives 127, where rounding the intermediate
  \<open>127.5\<close> gives 128.
\<close>

theorem blend_rounding_counterexample:
  "alpha_of 2 0 = 1 / 2 \<and> blend_px 0 255 (alpha_of 2 0) = 127 \<and> spec_blend_px 0 255 (alpha_of 2 0) = 128 \<and>
   blend_px 0 255 (alpha_of 2 0) \<noteq> spec_blend_px 0 255 (alpha_of 2 0)"
  by code_simp

subsection \<open>Zoom-crop fit\<close>

lemma centred: "(d::int) - d div 2 - d div 2 \<in> {0, 1}"
  by (simp; presburger)

lemma floor_bracket: "x - 1 < of_int \<lfloor>x\<rfloor> \<and> of_int \<lfloor>x\<rfloor> \<le> (x::rat)"
  by linarith

text \<open>
  C4 (as amended). For a source image of positive size and a positive target size,
  \<open>zoom_crop_and_resize\<close> raises nothing and returns the crop resampled with the
  LANCZOS filter (not NEAREST) to exactly \<open>(target_w, target_h)\<close>. If the source
  aspect ratio exceeds the target aspect ratio (both as floats) the crop keeps the full
  height, starts at the top and is centred horizontally: the right margin exceeds the
  left one by at most one pixel. Its width is the float product
  \<open>ih * target_ratio\<close> truncated to an integer, which is at most the exact product
  \<open>E\<close> times \<open>1 + 3/2^53\<close> and more than \<open>E * (1 - 3/2^53) - 1\<close>: within one pixel
  of \<open>E\<close>, and possibly one pixel less than \<open>E\<close> when \<open>E\<close> is an integer. Otherwise
  the crop keeps the full width, is centred vertically, and its height is the float
  quotient \<open>iw / target_ratio\<close> truncated, within the same bounds of the exact quotient.
\<close>

theorem zoom_crop_and_resize_fits:
  assumes "pil_size img = (iw, ih)" "0 < iw" "0 < ih" "0 < target_w" "0 < target_h"
  shows "case zoom_crop_box iw ih target_w target_h of
           Inl exc \<Rightarrow> False
         | Inr (left, top', new_w, new_h) \<Rightarrow>
             zoom_crop_and_resize L img target_w target_h
               = Inr \<lparr>pil_size = (target_w, target_h),
                      rgb = resize_px L
                              \<lparr>pil_size = (new_w, new_h),
                               rgb = crop_px L img (left, top', left + new_w, top' + new_h)\<rparr>
                              (target_w, target_h) LANCZOS\<rparr> \<and>
             LANCZOS \<noteq> NEAREST \<and>
             (if float64 (of_int iw / of_int ih) > float64 (of_int target_w / of_int target_h)
              then new_h = ih \<and> top' = 0 \<and> 0 \<le> new_w \<and>
                   of_int ih * (of_int target_w / of_int target_h) * (1 - 3 / 2 ^ 53) - 1
                     < (of_int new_w :: rat) \<and>
                   (of_int new_w :: rat)
                     \<le> of_int ih * (of_int target_w / of_int target_h) * (1 + 3 / 2 ^ 53) \<and>
                   (iw - (left + new_w)) - left \<in> {0, 1}
              else new_w = iw \<and> left = 0 \<and> 0 \<le> new_h \<and>
                   of_int iw / (of_int target_w / of_int target_h) * (1 - 3 / 2 ^ 53) - 1
                     < (of_int new_h :: rat) \<and>
                   (of_int new_h :: rat)
                     \<le> of_int iw / (of_int target_w / of_int target_h) * (1 + 3 / 2 ^ 53) \<and>
                   (ih - (top' + new_h)) - top' \<in> {0, 1})"
proof -
  define R :: rat where "R = of_int target_w / of_int target_h"
  have R: "0 < R" using assms by (simp add: R_def)
  have r: "0 < float64 R" unfolding R_def by (rule target_ratio_pos) (use assms in simp_all)
  show ?thesis
  proof (cases "float64 (of_int iw / of_int ih) > float64 R")
    case True
    define y where "y = float64 (of_int ih * float64 R)"
    define nw where "nw = \<lfloor>y\<rfloor>"
    have h0: "(0::rat) \<le> of_int ih" using assms by simp
    have y0: "0 \<le> y" unfolding y_def using h0 r by (intro float64_rel(3)) simp
    note b = product_bounds[OF h0 R, folded y_def]
    have nw0: "0 \<le> nw" using y0 by (simp add: nw_def)
    have pi: "py_int y = nw" using y0 by (simp add: py_int_nonneg nw_def)
    have box: "zoom_crop_box iw ih target_w target_h = Inr ((iw - nw) div 2, 0, nw, ih)"
      using True assms by (simp add: zoom_crop_box_def Let_def R_def[symmetric] y_def[symmetric] pi)
    have fb: "y - 1 < of_int nw" "of_int nw \<le> y"
      using floor_bracket[of y] by (simp_all add: nw_def)
    have lo: "of_int ih * R * (1 - 3 / 2 ^ 53) - 1 < (of_int nw :: rat)"
      using b(1) fb(1) by linarith
    have hi: "(of_int nw :: rat) \<le> of_int ih * R * (1 + 3 / 2 ^ 53)"
      using b(2) fb(2) by linarith
    have c: "iw - ((iw - nw) div 2 + nw) - (iw - nw) div 2 \<in> {0, 1}"
      using centred[of "iw - nw"] by (simp add: algebra_simps)
    have z: "zoom_crop_and_resize L img target_w target_h
               = Inr \<lparr>pil_size = (target_w, target_h),
                      rgb = resize_px L
                              \<lparr>pil_size = (nw, ih),
                               rgb = crop_px L img ((iw - nw) div 2, 0, (iw - nw) div 2 + nw, 0 + ih)\<rparr>
                              (target_w, target_h) LANCZOS\<rparr>"
      using assms nw0 by (simp add: zoom_crop_and_resize_def box crop_def resize_def)
    show ?thesis
      unfolding box using True nw0 lo hi c z
      by (simp add: R_def[symmetric])
  next
    case False
    define y where "y = float64 (of_int iw / float64 R)"
    define nh where "nh = \<lfloor>y\<rfloor>"
    have w0: "(0::rat) \<le> of_int iw" using assms by simp
    have y0: "0 \<le> y" unfolding y_def using w0 r by (intro float64_rel(3)) simp
    note b = quotient_bounds[OF w0 R, folded y_def]
    have nh0: "0 \<le> nh" using y0 by (simp add: nh_def)
    have pi: "py_int y = nh" using y0 by (simp add: py_int_nonneg nh_def)
    have box: "zoom_crop_box iw ih target_w target_h = Inr (0, (ih - nh) div 2, iw, nh)"
      using False assms r by (simp add: zoom_crop_box_def Let_def R_def[symmetric] y_def[symmetric] pi)
    have fb: "y - 1 < of_int nh" "of_int nh \<le> y"
      using floor_bracket[of y] by (simp_all add: nh_def)
    have lo: "of_int iw / R * (1 - 3 / 2 ^ 53) - 1 < (of_int nh :: rat)"
      using b(1) fb(1) by linarith
    have hi: "(of_int nh :: rat) \<le> of_int iw / R * (1 + 3 / 2 ^ 53)"
      using b(2) fb(2) by linarith
    have c: "ih - ((ih - nh) div 2 + nh) - (ih - nh) div 2 \<in> {0, 1}"
      using centred[of "ih - nh"] by (simp add: algebra_simps)
    have z: "zoom_crop_and_resize L img target_w target_h
               = Inr \<lparr>pil_size = (target_w, target_h),
                      rgb = resize_px L
                              \<lparr>pil_size = (iw, nh),
                               rgb = crop_px L img (0, (ih - nh) div 2, 0 + iw, (ih - nh) div 2 + nh)\<rparr>
                              (target_w, target_h) LANCZOS\<rparr>"
      using assms nh0 by (simp add: zoom_crop_and_resize_def box crop_def resize_def)
    show ?thesis
      unfolding box using False nh0 lo hi c z
      by (simp add: R_def[symmetric])
  qed
qed

theorem zoom_crop_and_resize_fits_witness:
  "zoom_crop_and_resize flat_lib wide_image 1 1 = Inr \<lparr>pil_size = (1, 1), rgb = [128, 128, 128]\<rparr> \<and>
   zoom_crop_box 5 2 1 1 = Inr (1, 0, 2, 2) \<and>
   zoom_crop_and_resize flat_lib tall_image 1 1 = Inr \<lparr>pil_size = (1, 1), rgb = [128, 128, 128]\<rparr> \<and>
   zoom_crop_box 2 5 1 1 = Inr (0, 1, 2, 2)"
proof -
  have w: "zoom_crop_box 5 2 1 1 = Inr (1, 0, 2, 2)" by code_simp
  have t: "zoom_crop_box 2 5 1 1 = Inr (0, 1, 2, 2)" by code_simp
  have sw: "pil_size wide_image = (5, 2)" by (simp add: wide_image_def)
  have st: "pil_size tall_image = (2, 5)" by (simp add: tall_image_def)
  have r3: "replicate 3 (128 :: 8 word) = [128, 128, 128]" by (simp add: numeral_3_eq_3)
  show ?thesis
    using zoom_crop_and_resize_fits [of wide_image 5 2 1 1 flat_lib, OF sw]
          zoom_crop_and_resize_fits [of tall_image 2 5 1 1 flat_lib, OF st]
    by (simp add: w t flat_lib_def r3)
qed

text \<open>
  C4 as stated fails: for an image of 110 by 100 pixels fitted to its own size, the
  quotient \<open>sourceWidth / targetAspect\<close> is exactly 100, but the float quotient is
  just below 100 and is truncated, so the crop keeps 99 rows.
\<close>

theorem zoom_crop_exact_quotient_counterexample:
  "zoom_crop_box 110 100 110 100 = Inr (0, 0, 110, 99) \<and>
   spec_zoom_crop_box 110 100 110 100 = (0, 0, 110, 100) \<and>
   (110 :: rat) / (110 / 100) = 100"
  by code_simp

section \<open>Properties of the slideshow path\<close>

subsection \<open>The emission loops\<close>

lemma write_frame_fields:
  "written (write_frame fps tot fr st) = written st @ [fr]"
  "frames_written (write_frame fps tot fr st) = frames_written st + 1"
  "raised (write_frame fps tot fr st) = raised st"
  by (simp_all add: write_frame_def Let_def)

lemma fold_write_frame:
  "written (fold (\<lambda>f. write_frame fps tot (g f)) xs st) = written st @ map g xs \<and>
   frames_written (fold (\<lambda>f. write_frame fps tot (g f)) xs st) = frames_written st + int (length xs) \<and>
   raised (fold (\<lambda>f. write_frame fps tot (g f)) xs st) = raised st"
  by (induction xs arbitrary: st) (simp_all add: write_frame_fields)

lemma zoom_crop_box_ok:
  assumes "0 < iw" "0 < ih" "0 < tw" "0 < th"
  shows "\<exists>left top' new_w new_h.
           zoom_crop_box iw ih tw th = Inr (left, top', new_w, new_h) \<and> 0 \<le> new_w \<and> 0 \<le> new_h"
proof -
  note r = target_ratio_pos[OF assms(3,4)]
  have w: "0 \<le> py_int (float64 (of_int ih * float64 (of_int tw / of_int th)))"
    using r assms(2) by (intro py_int_nonneg_ge float64_rel(3)) simp
  have h: "0 \<le> py_int (float64 (of_int iw / float64 (of_int tw / of_int th)))"
    using r assms(1) by (intro py_int_nonneg_ge float64_rel(3)) simp
  show ?thesis
    using assms r w h by (simp add: zoom_crop_box_def Let_def)
qed

lemma zoom_crop_and_resize_ok:
  assumes "positive_size img" "0 < tw" "0 < th"
  shows "\<exists>p. zoom_crop_and_resize L img tw th = Inr p"
proof -
  obtain iw ih where sz: "pil_size img = (iw, ih)" by (cases "pil_size img")
  with assms have "0 < iw" "0 < ih" by (simp_all add: positive_size_def)
  from zoom_crop_box_ok[OF this assms(2,3)] obtain left top' new_w new_h
    where "zoom_crop_box iw ih tw th = Inr (left, top', new_w, new_h)" "0 \<le> new_w" "0 \<le> new_h"
    by blast
  then show ?thesis
    using assms(2,3) by (simp add: zoom_crop_and_resize_def sz crop_def resize_def)
qed

lemma next_frame_ok:
  assumes "\<forall>img. Some img \<in> set pil_images \<longrightarrow> positive_size img" "0 < tw" "0 < th"
  shows "\<exists>n. next_frame L pil_images idx tw th cb = Inr n"
proof (cases "if idx + 1 < length pil_images then pil_images ! (idx + 1) else None")
  case None
  then show ?thesis by (simp add: next_frame_def)
next
  case (Some nxt)
  then have "Some nxt \<in> set pil_images" by (auto split: if_splits simp: in_set_conv_nth)
  with assms have "positive_size nxt" by blast
  from zoom_crop_and_resize_ok[OF this assms(2,3), of L] obtain p where "zoom_crop_and_resize L nxt tw th = Inr p" ..
  with Some show ?thesis by (simp add: next_frame_def)
qed

lemma render_image_None:
  assumes "pil_images ! idx = None"
  shows "written (render_image L pil_images fps F tot C tw th idx st) = written st"
    "frames_written (render_image L pil_images fps F tot C tw th idx st) = frames_written st + F"
    "raised (render_image L pil_images fps F tot C tw th idx st) = raised st"
  using assms by (simp_all add: render_image_def Let_def)

lemma render_image_Some:
  assumes "pil_images ! idx = Some img" "idx < length pil_images"
    and "\<forall>img. Some img \<in> set pil_images \<longrightarrow> positive_size img" "0 < tw" "0 < th"
  shows "length (written (render_image L pil_images fps F tot C tw th idx st))
           = length (written st) + (nat (stable_frames F C) + nat C)"
    "frames_written (render_image L pil_images fps F tot C tw th idx st)
           = frames_written st + int (nat (stable_frames F C) + nat C)"
    "raised (render_image L pil_images fps F tot C tw th idx st) = raised st"
proof -
  have "Some img \<in> set pil_images" using assms(1,2) by (metis nth_mem)
  with assms have "positive_size img" by blast
  from zoom_crop_and_resize_ok[OF this assms(4,5), of L] obtain p where p: "zoom_crop_and_resize L img tw th = Inr p" ..
  from next_frame_ok[OF assms(3,4,5), of L idx "to_bgr p"] obtain n where n: "next_frame L pil_images idx tw th (to_bgr p) = Inr n" ..
  show "length (written (render_image L pil_images fps F tot C tw th idx st))
           = length (written st) + (nat (stable_frames F C) + nat C)"
    "frames_written (render_image L pil_images fps F tot C tw th idx st)
           = frames_written st + int (nat (stable_frames F C) + nat C)"
    "raised (render_image L pil_images fps F tot C tw th idx st) = raised st"
    by (simp_all add: render_image_def assms(1) p n Let_def fold_write_frame)
qed


lemma decoded_count_take_Suc:
  assumes "n < length xs"
  shows "decoded_count (take (Suc n) xs) = decoded_count (take n xs) + (if xs ! n = None then 0 else 1)"
  using assms by (simp add: decoded_count_def take_Suc_conv_app_nth)

lemma decoded_count_le: "decoded_count (take n xs) \<le> n"
proof -
  have "decoded_count (take n xs) \<le> length (take n xs)"
    unfolding decoded_count_def by (rule length_filter_le)
  then show ?thesis by simp
qed

lemma render_prefix:
  fixes L :: pil_lib and fps F tot C :: int
  assumes pos: "\<forall>img. Some img \<in> set pil_images \<longrightarrow> positive_size img"
    and tw: "0 < tw" and th: "0 < th"
    and st0: "raised st0 = None"
    and n: "n \<le> length pil_images"
  defines "step \<equiv> (\<lambda>idx st. if raised st = None
                         then render_image L pil_images fps F tot C tw th idx st else st)"
    and "K \<equiv> nat (stable_frames F C) + nat C"
  shows "raised (fold step [0 ..< n] st0) = None \<and>
         length (written (fold step [0 ..< n] st0))
           = length (written st0) + decoded_count (take n pil_images) * K \<and>
         frames_written (fold step [0 ..< n] st0)
           = frames_written st0 + int (decoded_count (take n pil_images) * K)
               + (int n - int (decoded_count (take n pil_images))) * F"
  using n
proof (induction n)
  case 0
  then show ?case using st0 by (simp add: decoded_count_def)
next
  case (Suc n)
  then have n: "n < length pil_images" and IH: "raised (fold step [0 ..< n] st0) = None"
    "length (written (fold step [0 ..< n] st0))
           = length (written st0) + decoded_count (take n pil_images) * K"
    "frames_written (fold step [0 ..< n] st0)
           = frames_written st0 + int (decoded_count (take n pil_images) * K)
               + (int n - int (decoded_count (take n pil_images))) * F"
    by simp_all
  define st where "st = fold step [0 ..< n] st0"
  have unfold: "fold step [0 ..< Suc n] st0 = render_image L pil_images fps F tot C tw th n st"
    using IH(1) by (simp add: st_def step_def)
  show ?case
  proof (cases "pil_images ! n")
    case None
    show ?thesis
      unfolding unfold decoded_count_take_Suc[OF n]
      using IH[folded st_def] by (simp add: None render_image_None[OF None] algebra_simps)
  next
    case (Some img)
    note rs = render_image_Some[OF Some n pos tw th, of L fps F tot C st, folded K_def]
    show ?thesis
      unfolding unfold decoded_count_take_Suc[OF n]
      using IH[folded st_def] by (simp add: Some rs algebra_simps)
  qed
qed

lemma render_frames_count:
  assumes pos: "\<forall>img. Some img \<in> set pil_images \<longrightarrow> positive_size img"
    and tw: "0 < tw" and th: "0 < th"
  shows "raised (render_frames L pil_images d fps C tw th) = None"
    "length (written (render_frames L pil_images d fps C tw th))
       = decoded_count pil_images * (nat (stable_frames (frames_per_image d fps) C) + nat C)"
    "frames_written (render_frames L pil_images d fps C tw th)
       = int (decoded_count pil_images * (nat (stable_frames (frames_per_image d fps) C) + nat C))
         + (int (length pil_images) - int (decoded_count pil_images)) * frames_per_image d fps"
  using render_prefix[OF pos tw th, where n = "length pil_images" and
          ?st0.0 = "\<lparr>written = [], frames_written = 0,
                 progress = [(0, ''Rendering frames...'')], raised = None\<rparr>"
          and L = L and fps = fps and F = "frames_per_image d fps" and C = C
          and tot = "int (length pil_images) * frames_per_image d fps"]
  by (simp_all add: render_frames_def Let_def)

lemma frames_budget:
  assumes "0 \<le> C" "C \<le> F"
  shows "int (nat (stable_frames F C) + nat C) = F"
  using assms by (simp add: stable_frames_def Let_def)


subsection \<open>Frame counts\<close>

text \<open>
  C1 (as amended). For a catalog of \<open>N\<close> items with \<open>F\<close> frames per item and
  \<open>0 \<le> C \<le> F\<close> cross-fade frames, positive target size and decoded images of positive
  size, rendering raises nothing, the counter \<open>frames_written\<close> ends at \<open>N * F\<close>
  whatever number of items failed to decode, and the number of frames passed to the
  writer is \<open>R * F\<close>, where \<open>R\<close> is the number of items that decoded.
\<close>

theorem render_frames_counter_and_emission:
  assumes "0 \<le> crossfade_frames" "crossfade_frames \<le> frames_per_image duration_sec fps"
    and "\<forall>img. Some img \<in> set pil_images \<longrightarrow> positive_size img"
    and "0 < target_w" "0 < target_h"
  shows "raised (render_frames L pil_images duration_sec fps crossfade_frames target_w target_h) = None \<and>
    frames_written (render_frames L pil_images duration_sec fps crossfade_frames target_w target_h)
      = int (length pil_images) * frames_per_image duration_sec fps \<and>
    int (length (written (render_frames L pil_images duration_sec fps crossfade_frames target_w target_h)))
      = int (decoded_count pil_images) * frames_per_image duration_sec fps"
proof -
  note cnt = render_frames_count[OF assms(3,4,5), of L duration_sec fps crossfade_frames]
  note b = frames_budget[OF assms(1,2)]
  have m: "int (decoded_count pil_images * (nat (stable_frames (frames_per_image duration_sec fps) crossfade_frames) + nat crossfade_frames))
     = int (decoded_count pil_images) * frames_per_image duration_sec fps"
    unfolding of_nat_mult b ..
  show ?thesis
    unfolding cnt(2,3) m using cnt(1) by (simp add: algebra_simps)
qed

theorem render_frames_counter_and_emission_witness:
  "frames_written (render_frames flat_lib [Some dot_image, None, Some dot_image] 1 30 15 1280 720) = 90 \<and>
   length (written (render_frames flat_lib [Some dot_image, None, Some dot_image] 1 30 15 1280 720)) = 60"
  using render_frames_counter_and_emission
          [of 15 1 30 "[Some dot_image, None, Some dot_image]" 1280 720 flat_lib]
  by (simp add: frames_per_image_def decoded_count_def positive_size_def dot_image_def)

text \<open>
  C1 as stated fails: with the second of two items unreadable, one frame per item and
  no cross-fade, one frame is written, not \<open>N * F = 2\<close>.
\<close>

theorem render_frames_emission_counterexample:
  "(0::int) \<le> frames_per_image 1 1 \<and>
   int (length (written (render_frames flat_lib [Some dot_image, None] 1 1 0 1 1)))
    \<noteq> int (length [Some dot_image, None]) * frames_per_image 1 1"
  by code_simp

text \<open>
  C6. When the cross-fade is longer than the item, the stable-frame count is zero,
  rendering raises nothing, and every decoded item contributes exactly the
  \<open>crossfade_frames\<close> blended frames.
\<close>

theorem crossfade_longer_than_item_clamps:
  assumes "frames_per_image duration_sec fps < crossfade_frames"
    and "\<forall>img. Some img \<in> set pil_images \<longrightarrow> positive_size img"
    and "0 < target_w" "0 < target_h"
  shows "stable_frames (frames_per_image duration_sec fps) crossfade_frames = 0 \<and>
    raised (render_frames L pil_images duration_sec fps crossfade_frames target_w target_h) = None \<and>
    length (written (render_frames L pil_images duration_sec fps crossfade_frames target_w target_h))
      = decoded_count pil_images * nat crossfade_frames"
proof -
  have s: "stable_frames (frames_per_image duration_sec fps) crossfade_frames = 0"
    using assms(1) by (simp add: stable_frames_def Let_def)
  note cnt = render_frames_count[OF assms(2,3,4), of L duration_sec fps crossfade_frames]
  show ?thesis using cnt(1,2) s by simp
qed

theorem crossfade_longer_than_item_clamps_witness:
  "stable_frames (frames_per_image 1 2) 5 = 0 \<and>
   raised (render_frames flat_lib [Some dot_image, None] 1 2 5 854 480) = None \<and>
   length (written (render_frames flat_lib [Some dot_image, None] 1 2 5 854 480)) = 5"
  using crossfade_longer_than_item_clamps [of 1 2 5 "[Some dot_image, None]" 854 480 flat_lib]
  by (simp add: frames_per_image_def decoded_count_def positive_size_def dot_image_def)

subsection \<open>The target of the cross-fade\<close>

text \<open>
  C9. If item \<open>idx\<close> decoded and is fitted to \<open>curr_frame_pil\<close>, and item \<open>idx + 1\<close>
  exists but did not decode, the cross-fade of item \<open>idx\<close> blends towards the array of
  zeros of the shape of the current frame, the same target as for the last item of the
  catalog: the frames written for the item are the stable copies followed by the
  blends of the current frame with that black frame, and when there is a cross-fade
  the last frame written for the item is that black frame itself.
\<close>

theorem crossfade_towards_black_when_next_unreadable:
  assumes "idx + 1 < length pil_images"
    and "pil_images ! idx = Some img"
    and "pil_images ! (idx + 1) = None"
    and "zoom_crop_and_resize L img target_w target_h = Inr curr_frame_pil"
  shows "next_frame L pil_images idx target_w target_h (to_bgr curr_frame_pil)
           = Inr (zeros_like (to_bgr curr_frame_pil)) \<and>
         shape (zeros_like (to_bgr curr_frame_pil)) = shape (to_bgr curr_frame_pil) \<and>
         px (zeros_like (to_bgr curr_frame_pil)) = replicate (length (px (to_bgr curr_frame_pil))) 0 \<and>
         next_frame L pil_images (length pil_images - 1) target_w target_h (to_bgr curr_frame_pil)
           = Inr (zeros_like (to_bgr curr_frame_pil)) \<and>
         (0 < crossfade_frames \<longrightarrow>
            last (written (render_image L pil_images fps fpi total_frames crossfade_frames
                             target_w target_h idx st))
              = zeros_like (to_bgr curr_frame_pil)) \<and>
         written (render_image L pil_images fps fpi total_frames crossfade_frames
                    target_w target_h idx st)
           = written st
             @ replicate (nat (stable_frames fpi crossfade_frames)) (to_bgr curr_frame_pil)
             @ map (\<lambda>f. blend (to_bgr curr_frame_pil) (zeros_like (to_bgr curr_frame_pil))
                          (alpha_of crossfade_frames f))
                 [0 ..< nat crossfade_frames]"
proof -
  have nf: "next_frame L pil_images idx target_w target_h (to_bgr curr_frame_pil)
           = Inr (zeros_like (to_bgr curr_frame_pil))"
    using assms(1,3) by (simp add: next_frame_def)
  have rep: "map (\<lambda>_. to_bgr curr_frame_pil) [0 ..< nat (stable_frames fpi crossfade_frames)]
      = replicate (nat (stable_frames fpi crossfade_frames)) (to_bgr curr_frame_pil)"
    by (simp add: map_replicate_const)
  have wr: "written (render_image L pil_images fps fpi total_frames crossfade_frames
                    target_w target_h idx st)
           = written st
             @ replicate (nat (stable_frames fpi crossfade_frames)) (to_bgr curr_frame_pil)
             @ map (\<lambda>f. blend (to_bgr curr_frame_pil) (zeros_like (to_bgr curr_frame_pil))
                          (alpha_of crossfade_frames f))
                 [0 ..< nat crossfade_frames]"
    by (simp add: render_image_def assms(2,4) nf Let_def fold_write_frame rep)
  have "\<not> length pil_images - 1 + 1 < length pil_images" using assms(1) by simp
  then have lst: "next_frame L pil_images (length pil_images - 1) target_w target_h
                    (to_bgr curr_frame_pil) = Inr (zeros_like (to_bgr curr_frame_pil))"
    by (simp add: next_frame_def)
  have fin: "last (written (render_image L pil_images fps fpi total_frames crossfade_frames
                             target_w target_h idx st))
              = zeros_like (to_bgr curr_frame_pil)" if c: "0 < crossfade_frames"
  proof -
    obtain k where k: "nat crossfade_frames = Suc k" using c by (cases "nat crossfade_frames") simp_all
    have "(of_nat k + 1 :: rat) = of_int crossfade_frames"
    proof -
      have "int k + 1 = crossfade_frames" using k c by linarith
      then have "(of_int (int k + 1) :: rat) = of_int crossfade_frames" by simp
      then show ?thesis by simp
    qed
    moreover have "max 1 crossfade_frames = crossfade_frames" using c by simp
    ultimately have al: "alpha_of crossfade_frames k = 1"
      using c by (simp add: alpha_of_def float64_simps)
    have b1: "blend (to_bgr curr_frame_pil) (zeros_like (to_bgr curr_frame_pil)) 1
            = zeros_like (to_bgr curr_frame_pil)"
      by (rule blend_one) (simp_all add: zeros_like_def)
    show ?thesis
      unfolding wr k by (simp add: al b1)
  qed
  show ?thesis using nf wr lst fin by (simp add: zeros_like_def)
qed

theorem crossfade_towards_black_when_next_unreadable_witness:
  "next_frame flat_lib [Some dot_image, None, Some wide_image] 0 1 1
     (to_bgr \<lparr>pil_size = (1, 1), rgb = [128, 128, 128]\<rparr>)
   = Inr \<lparr>shape = (1, 1), px = [0, 0, 0]\<rparr> \<and>
   last (written (render_image flat_lib [Some dot_image, None, Some wide_image] 30 30 90 15 1 1 0
                    \<lparr>written = [], frames_written = 0, progress = [], raised = None\<rparr>))
   = \<lparr>shape = (1, 1), px = [0, 0, 0]\<rparr>"
proof -
  have z: "zoom_crop_and_resize flat_lib dot_image 1 1
             = Inr \<lparr>pil_size = (1, 1), rgb = [128, 128, 128]\<rparr>"
    by code_simp
  have p: "0 + 1 < length [Some dot_image, None, Some wide_image]"
    "[Some dot_image, None, Some wide_image] ! 0 = Some dot_image"
    "[Some dot_image, None, Some wide_image] ! (0 + 1) = None"
    by simp_all
  note t = crossfade_towards_black_when_next_unreadable
            [where idx = 0 and pil_images = "[Some dot_image, None, Some wide_image]"
               and img = dot_image and L = flat_lib and target_w = 1 and target_h = 1
               and curr_frame_pil = "\<lparr>pil_size = (1, 1), rgb = [128, 128, 128]\<rparr>"
               and fps = 30 and fpi = 30 and total_frames = 90 and crossfade_frames = 15
               and st = "\<lparr>written = [], frames_written = 0, progress = [], raised = None\<rparr>",
             OF p z]
  have zl: "zeros_like (to_bgr \<lparr>pil_size = (1, 1), rgb = [128, 128, 128]\<rparr>)
              = \<lparr>shape = (1, 1), px = [0, 0, 0]\<rparr>"
    by (simp add: zeros_like_def to_bgr_def)
  from t have "next_frame flat_lib [Some dot_image, None, Some wide_image] 0 1 1
                 (to_bgr \<lparr>pil_size = (1, 1), rgb = [128, 128, 128]\<rparr>)
               = Inr (zeros_like (to_bgr \<lparr>pil_size = (1, 1), rgb = [128, 128, 128]\<rparr>))"
    by (rule conjunct1)
  moreover from t have "(0::int) < 15 \<longrightarrow>
      last (written (render_image flat_lib [Some dot_image, None, Some wide_image] 30 30 90 15 1 1 0
                    \<lparr>written = [], frames_written = 0, progress = [], raised = None\<rparr>))
      = zeros_like (to_bgr \<lparr>pil_size = (1, 1), rgb = [128, 128, 128]\<rparr>)"
    by blast
  ultimately show ?thesis by (simp only: zl)
qed

subsection \<open>Encode fallback and the first image\<close>

text \<open>
  C2. If the re-encode fails with diagnostic \<open>e\<close>, with or without background music,
  the raw video is moved to the output path; if the move succeeds the job reports
  success with a warning that carries \<open>e\<close>, and if the move fails with \<open>e2\<close> the job
  reports failure with a message that contains \<open>e\<close> followed by \<open>e2\<close>. In both cases
  the temporary directory is removed.
\<close>

theorem encode_failure_falls_back_to_raw:
  assumes "run_ffmpeg env (ffmpeg_cmd env raw_video (path_join tmp_dir ''final.mp4'') bgm) = Inl e"
  shows "done_calls (encode_and_save env tmp_dir raw_video output_path bgm) =
           (case shutil_move env raw_video output_path of
              Inr _ \<Rightarrow> [(True, ''Saved raw video (ffmpeg failed). Video at: '' @ output_path
                                   @ ''\<newline>ffmpeg error:\<newline>'' @ e)]
            | Inl e2 \<Rightarrow> [(False, ''ffmpeg failed and fallback save failed:\<newline>'' @ e
                                   @ ''\<newline>'' @ e2)]) \<and>
         fs_ops (encode_and_save env tmp_dir raw_video output_path bgm) =
           [Ffmpeg (ffmpeg_cmd env raw_video (path_join tmp_dir ''final.mp4'') bgm) False,
            Move raw_video output_path
              (case shutil_move env raw_video output_path of Inr _ \<Rightarrow> True | Inl _ \<Rightarrow> False),
            Rmtree tmp_dir]"
  using assms by (simp add: encode_and_save_def Let_def split: sum.splits)

theorem encode_failure_falls_back_to_raw_witness:
  "done_calls (encode_and_save (failing_encoder_env True) ''/tmp/t'' ''/tmp/t/raw_video.mp4''
                 ''/out/v.mp4'' None)
     = [(True, ''Saved raw video (ffmpeg failed). Video at: /out/v.mp4\<newline>ffmpeg error:\<newline>encoder missing'')] \<and>
   done_calls (encode_and_save (failing_encoder_env False) ''/tmp/t'' ''/tmp/t/raw_video.mp4''
                 ''/out/v.mp4'' (Some ''m.mp3''))
     = [(False, ''ffmpeg failed and fallback save failed:\<newline>encoder missing\<newline>disk full'')]"
  using encode_failure_falls_back_to_raw
          [of "failing_encoder_env True" "''/tmp/t/raw_video.mp4''" "''/tmp/t''" None
              "''encoder missing''" "''/out/v.mp4''"]
        encode_failure_falls_back_to_raw
          [of "failing_encoder_env False" "''/tmp/t/raw_video.mp4''" "''/tmp/t''" "Some ''m.mp3''"
              "''encoder missing''" "''/out/v.mp4''"]
  by (simp add: failing_encoder_env_def)

text \<open>
  C10. Whatever the resolution setting, if the first image of the sequence cannot be
  opened, the job ends with \<open>on_done(False, ...)\<close> carrying the text of the exception:
  no frame is written, no progress is reported and nothing is created or removed.
\<close>

theorem first_image_unreadable_fails_job:
  assumes "image_open env first_name = Inl exc"
  shows "create_slideshow_thread env (first_name # rest) output_path duration_sec fps resolution
           crossfade_frames bgm
         = \<lparr>frames = [], progress_calls = [],
            done_calls = [(False, ''Error during generation: '' @ exc)], fs_ops = []\<rparr>"
  using assms by (simp add: create_slideshow_thread_def)

theorem first_image_unreadable_fails_job_witness:
  "create_slideshow_thread (failing_encoder_env True) [''broken.jpg'', ''a.jpg''] ''/out/v.mp4'' 1 30
      (Some (1280, 720)) 15 None
    = \<lparr>frames = [], progress_calls = [],
       done_calls = [(False, ''Error during generation: cannot identify image file'')],
       fs_ops = []\<rparr>"
  using first_image_unreadable_fails_job
          [of "failing_encoder_env True" "''broken.jpg''" "''cannot identify image file''"
              "[''a.jpg'']" "''/out/v.mp4''" 1 30 "Some (1280, 720)" 15 None]
  by (simp add: failing_encoder_env_def)

section \<open>Properties of the portrait-conversion path\<close>

subsection \<open>Filter descriptions\<close>

lemma str_int_sizes:
  "str_int 1920 = ''1920''" "str_int 1080 = ''1080''" "str_int 1280 = ''1280''" "str_int 720 = ''720''"
  by (simp_all add: str_int_def str_nat.simps digit_char_def)

lemma str_int_small: "str_int 0 = ''0''" "str_int 1 = ''1''" "str_int 2 = ''2''"
  by (simp_all add: str_int_def str_nat.simps digit_char_def)

text \<open>
  C7, at a portrait source of 1080 by 1920 pixels and the 1080p target: the letterbox
  description bounds only the width of the scaled frame (\<open>min(1920, iw)\<close>), so the
  scaled frame is 1080 by 1920, taller than the 1080 rows of the pad that follows.
  The blur builder fits the foreground with
  \<open>force_original_aspect_ratio=decrease\<close>; the letterbox builder does not.
\<close>

theorem letterbox_portrait_source_exceeds_target:
  "build_letterbox_vf 1920 1080 ''#000000''
     = ''scale='min(1920,iw)':-2,pad=1920:1080:(ow-iw)/2:(oh-ih)/2:0x000000'' \<and>
   letterbox_scaled_size 1920 (1080, 1920) = (1080, 1920) \<and>
   \<not> snd (letterbox_scaled_size 1920 (1080, 1920)) \<le> 1080"
  by (simp add: build_letterbox_vf_def letterbox_scaled_size_def str_int_sizes Let_def)

subsection \<open>Audio cascade\<close>

text \<open>
  The order of the cascade: the mix, then the background track alone, then the copy of
  the silent video, stopping at the first stage that succeeds.
\<close>

lemma audio_stage_cascade:
  assumes "bgm_path cfg = Some bgm" "bgm \<noteq> []"
  shows "filter is_call (fst (audio_stage cfg env src tmp_video outpath)) =
     (let m = mix_cmd cfg src tmp_video bgm outpath;
          f = fallback_cmd cfg tmp_video bgm outpath
      in if fst (run_cmd env m) then [RunCmd m True]
         else if fst (run_cmd env f) then [RunCmd m False, RunCmd f True]
         else [RunCmd m False, RunCmd f False,
               CopyFile tmp_video outpath (case copy_file env tmp_video outpath of Inr _ \<Rightarrow> True | Inl _ \<Rightarrow> False)])"
  using assms
  by (simp add: audio_stage_def last_resort_def Let_def split: prod.splits sum.splits)

text \<open>
  C5, with trimming requested (the default): the command of the second stage carries
  \<open>-shortest\<close> as the value of \<open>-b:a\<close> and \<open>192k\<close> as a further output file, because
  \<open>insert(-1, "-shortest")\<close> runs before the output path is appended. The command does
  not ask the encoder to trim the background track.
\<close>

theorem fallback_command_with_trim:
  "bgm_trim_var default_cfg \<and>
   fallback_cmd default_cfg ''/tmp/p2l_x/video_only.mp4'' ''/music/bgm.mp3'' ''/out/clip_landscape.mp4''
     = [''ffmpeg'', ''-y'', ''-i'', ''/tmp/p2l_x/video_only.mp4'', ''-i'', ''/music/bgm.mp3'',
        ''-map'', ''0:v'', ''-map'', ''1:a'', ''-c:v'', ''copy'', ''-c:a'', ''aac'',
        ''-b:a'', ''-shortest'', ''192k'', ''/out/clip_landscape.mp4'']"
  by (simp add: fallback_cmd_def default_cfg_def py_insert_def Let_def)

subsection \<open>Cancellation\<close>

lemma last_resort_events:
  "\<forall>e \<in> set (fst (last_resort env tv out)). \<not> is_poll e \<and> \<not> is_report e \<and> (\<forall>d. e \<noteq> Mkdtemp d)"
  by (simp add: last_resort_def split: sum.splits)

lemma audio_stage_events:
  "\<forall>e \<in> set (fst (audio_stage cfg env src tv out)). \<not> is_poll e \<and> \<not> is_report e \<and> (\<forall>d. e \<noteq> Mkdtemp d)"
  using last_resort_events[of env tv out]
  by (auto simp add: audio_stage_def Let_def split: prod.splits option.splits if_splits)

lemma convert_entry_events:
  "(\<forall>e \<in> set (fst (convert_entry cfg env outdir src n)). \<not> is_poll e \<and> \<not> is_report e \<and>
       (\<forall>d. e = Mkdtemp d \<longrightarrow> d = new_tmpdir env n)) \<and>
   Rmtree_tmp (new_tmpdir env n) \<in> set (fst (convert_entry cfg env outdir src n))"
  using audio_stage_events[of cfg env src "path_join (new_tmpdir env n) ''video_only.mp4''" "outpath_of outdir src"]
  by (auto simp add: convert_entry_def Let_def split: prod.splits option.splits if_splits)

lemma filter_none: "(\<forall>e \<in> set xs. \<not> P e) \<Longrightarrow> filter P xs = []"
  by (induction xs) simp_all

lemma worker_loop_invariant:
  "filter is_report (events (worker_loop cfg env outdir total_files entries st))
     = filter is_report (events st) \<and>
   ((\<forall>d. Mkdtemp d \<in> set (events st) \<longrightarrow> Rmtree_tmp d \<in> set (events st)) \<longrightarrow>
    (\<forall>d. Mkdtemp d \<in> set (events (worker_loop cfg env outdir total_files entries st))
         \<longrightarrow> Rmtree_tmp d \<in> set (events (worker_loop cfg env outdir total_files entries st))))"
proof (induction entries arbitrary: st)
  case Nil
  show ?case by simp
next
  case (Cons src rest)
  show ?case
  proof (cases "stop_flag env (now st)")
    case True
    then show ?thesis by simp
  next
    case False
    obtain evs reached where ce: "convert_entry cfg env outdir src (now st) = (evs, reached)"
      by (cases "convert_entry cfg env outdir src (now st)")
    from convert_entry_events[of cfg env outdir src "now st"] ce
    have ev: "\<forall>e \<in> set evs. \<not> is_poll e \<and> \<not> is_report e \<and> (\<forall>d. e = Mkdtemp d \<longrightarrow> d = new_tmpdir env (now st))"
      and rm: "Rmtree_tmp (new_tmpdir env (now st)) \<in> set evs"
      by simp_all
    have nr: "filter is_report evs = []" using ev by (intro filter_none) blast
    define st' where "st' = (if reached
        then \<lparr>now = now st + length (filter is_call evs), done_count = done_count st + 1,
              events = events st @ [Poll False] @ evs
                @ [SetOverall (percent (done_count st + 1) total_files), SetCurrent 0,
                   Log (''Saved: '' @ outpath_of outdir src)]\<rparr>
        else \<lparr>now = now st + length (filter is_call evs), done_count = done_count st,
              events = events st @ [Poll False] @ evs\<rparr>)"
    have step: "worker_loop cfg env outdir total_files (src # rest) st
                  = worker_loop cfg env outdir total_files rest st'"
      using False by (simp add: ce st'_def Let_def)
    have r': "filter is_report (events st') = filter is_report (events st)"
      by (simp add: st'_def nr)
    have inv': "(\<forall>d. Mkdtemp d \<in> set (events st') \<longrightarrow> Rmtree_tmp d \<in> set (events st'))"
      if "\<forall>d. Mkdtemp d \<in> set (events st) \<longrightarrow> Rmtree_tmp d \<in> set (events st)"
      using that ev rm by (auto simp add: st'_def)
    show ?thesis
      unfolding step using Cons.IH[of st'] r' inv' by simp
  qed
qed

text \<open>
  C8 (as amended). The worker reads the stop flag once before each file and nowhere
  else. When that read finds the flag set, the loop ends there: no stage of this or
  any later file runs, and the line \<open>Stopped by user.\<close> is logged. No read of the
  flag happens among the stages of one file. Every temporary directory the worker
  creates is removed. The completion report (status line and dialog) has the same form
  whether the worker was stopped or not: \<open>Done\<close> and \<open>Finished d/n files.\<close>
\<close>

theorem worker_stops_between_files_only:
  "(stop_flag env (now st) \<longrightarrow>
      worker_loop cfg env outdir total_files (src # rest) st
        = st\<lparr>events := events st @ [Poll True, Log ''Stopped by user.'']\<rparr>) \<and>
   filter is_poll (fst (convert_entry cfg env outdir src n)) = [] \<and>
   (\<forall>d. Mkdtemp d \<in> set (worker_convert cfg env entries outdir)
        \<longrightarrow> Rmtree_tmp d \<in> set (worker_convert cfg env entries outdir)) \<and>
   (\<exists>d. filter is_report (worker_convert cfg env entries outdir)
          = [SetStatus ''Done'',
             ShowInfo ''Done'' (''Finished '' @ str_int d @ ''/''
                                 @ str_int (int (length entries)) @ '' files.'')])"
proof -
  define st0 :: worker_state where "st0 = \<lparr>now = 0, done_count = 0, events = []\<rparr>"
  define fin where "fin = worker_loop cfg env outdir (int (length entries)) entries st0"
  have wc: "worker_convert cfg env entries outdir
              = events fin @ completion (done_count fin) (int (length entries))"
    by (simp add: worker_convert_def Let_def fin_def st0_def)
  from worker_loop_invariant[of cfg env outdir "int (length entries)" entries st0]
  have r: "filter is_report (events fin) = []"
    and m: "\<forall>d. Mkdtemp d \<in> set (events fin) \<longrightarrow> Rmtree_tmp d \<in> set (events fin)"
    by (simp_all add: fin_def st0_def)
  have a: "stop_flag env (now st) \<longrightarrow>
      worker_loop cfg env outdir total_files (src # rest) st
        = st\<lparr>events := events st @ [Poll True, Log ''Stopped by user.'']\<rparr>"
    by simp
  have b: "filter is_poll (fst (convert_entry cfg env outdir src n)) = []"
    using convert_entry_events[of cfg env outdir src n] by (intro filter_none) blast
  have c: "\<forall>d. Mkdtemp d \<in> set (worker_convert cfg env entries outdir)
        \<longrightarrow> Rmtree_tmp d \<in> set (worker_convert cfg env entries outdir)"
    unfolding wc using m by (auto simp add: completion_def)
  have d: "filter is_report (worker_convert cfg env entries outdir)
          = [SetStatus ''Done'',
             ShowInfo ''Done'' (''Finished '' @ str_int (done_count fin) @ ''/''
                                 @ str_int (int (length entries)) @ '' files.'')]"
    unfolding wc by (simp add: r completion_def)
  from a b c d show ?thesis by blast
qed

theorem worker_stops_between_files_only_witness:
  "worker_loop default_cfg stopped_env ''/out'' 2 [''/in/a.mp4'', ''/in/b.mp4'']
       \<lparr>now = 0, done_count = 0, events = []\<rparr>
     = \<lparr>now = 0, done_count = 0, events = [Poll True, Log ''Stopped by user.'']\<rparr> \<and>
   Mkdtemp ''/tmp/p2l_x'' \<in> set (worker_convert default_cfg failing_env [''/in/clip.mp4''] ''/out'') \<and>
   Rmtree_tmp ''/tmp/p2l_x'' \<in> set (worker_convert default_cfg failing_env [''/in/clip.mp4''] ''/out'')"
proof -
  note t = worker_stops_between_files_only[of stopped_env "\<lparr>now = 0, done_count = 0, events = []\<rparr>" default_cfg
                   "''/out''" 2 "''/in/a.mp4''" "[''/in/b.mp4'']" 0 "[''/in/clip.mp4'']"]
  note u = worker_stops_between_files_only[of failing_env "\<lparr>now = 0, done_count = 0, events = []\<rparr>" default_cfg
                   "''/out''" 1 "''/in/clip.mp4''" "[]" 0 "[''/in/clip.mp4'']"]
  have s: "stop_flag stopped_env (now \<lparr>now = 0, done_count = 0, events = []\<rparr>)"
    by (simp add: stopped_env_def)
  have mk: "Mkdtemp ''/tmp/p2l_x'' \<in> set (worker_convert default_cfg failing_env [''/in/clip.mp4''] ''/out'')"
    by (simp add: worker_convert_def convert_entry_def failing_env_def Let_def)
  from t s have "worker_loop default_cfg stopped_env ''/out'' 2 [''/in/a.mp4'', ''/in/b.mp4'']
       \<lparr>now = 0, done_count = 0, events = []\<rparr>
     = \<lparr>now = 0, done_count = 0, events = [Poll True, Log ''Stopped by user.'']\<rparr>"
    by simp
  moreover from u mk have "Rmtree_tmp ''/tmp/p2l_x'' \<in> set (worker_convert default_cfg failing_env [''/in/clip.mp4''] ''/out'')"
    by blast
  ultimately show ?thesis using mk by simp
qed

text \<open>
  C8 as stated fails. With the flag set while the first command of a file runs, the
  worker reads the flag only before the file and still runs the audio mix, the
  fallback and the copy. And the completion report of a run that was stopped before
  its only file equals the report of a run whose only file failed.
\<close>

theorem worker_stop_counterexample:
  "stop_flag stop_midway_env 1 \<and>
   filter (\<lambda>e. is_poll e \<or> is_call e)
      (worker_convert default_cfg stop_midway_env [''/in/clip.mp4''] ''/out'')
     = [Poll False,
        RunCmd (cmdA default_cfg ''/in/clip.mp4'' ''/tmp/p2l_x/video_only.mp4'') True,
        RunCmd (mix_cmd default_cfg ''/in/clip.mp4'' ''/tmp/p2l_x/video_only.mp4''
                  ''/music/bgm.mp3'' ''/out/clip_landscape.mp4'') False,
        RunCmd (fallback_cmd default_cfg ''/tmp/p2l_x/video_only.mp4''
                  ''/music/bgm.mp3'' ''/out/clip_landscape.mp4'') False,
        CopyFile ''/tmp/p2l_x/video_only.mp4'' ''/out/clip_landscape.mp4'' True] \<and>
   filter is_report (worker_convert default_cfg stopped_env [''/in/clip.mp4''] ''/out'')
     = filter is_report (worker_convert default_cfg failing_env [''/in/clip.mp4''] ''/out'')"
proof -
  have op: "outpath_of ''/out'' ''/in/clip.mp4'' = ''/out/clip_landscape.mp4''"
    by (simp add: outpath_of_def path_join_def splitext_root_def basename_def)
  have tv: "path_join ''/tmp/p2l_x'' ''video_only.mp4'' = ''/tmp/p2l_x/video_only.mp4''"
    by (simp add: path_join_def)
  have a: "''-an'' \<in> set (cmdA default_cfg ''/in/clip.mp4'' ''/tmp/p2l_x/video_only.mp4'')"
    by (simp add: cmdA_def default_cfg_def target_size_def)
  have m: "''-an'' \<notin> set (mix_cmd default_cfg ''/in/clip.mp4'' ''/tmp/p2l_x/video_only.mp4''
                  ''/music/bgm.mp3'' ''/out/clip_landscape.mp4'')"
    by (simp add: mix_cmd_def default_cfg_def py_insert_def amix_filter_def Let_def)
  have f: "''-an'' \<notin> set (fallback_cmd default_cfg ''/tmp/p2l_x/video_only.mp4''
                  ''/music/bgm.mp3'' ''/out/clip_landscape.mp4'')"
    by (simp add: fallback_cmd_def default_cfg_def py_insert_def Let_def)
  have bg: "bgm_path default_cfg = Some ''/music/bgm.mp3''" by (simp add: default_cfg_def)
  have 1: "stop_flag stop_midway_env 1" by (simp add: stop_midway_env_def)
  have 2: "filter (\<lambda>e. is_poll e \<or> is_call e)
      (worker_convert default_cfg stop_midway_env [''/in/clip.mp4''] ''/out'')
     = [Poll False,
        RunCmd (cmdA default_cfg ''/in/clip.mp4'' ''/tmp/p2l_x/video_only.mp4'') True,
        RunCmd (mix_cmd default_cfg ''/in/clip.mp4'' ''/tmp/p2l_x/video_only.mp4''
                  ''/music/bgm.mp3'' ''/out/clip_landscape.mp4'') False,
        RunCmd (fallback_cmd default_cfg ''/tmp/p2l_x/video_only.mp4''
                  ''/music/bgm.mp3'' ''/out/clip_landscape.mp4'') False,
        CopyFile ''/tmp/p2l_x/video_only.mp4'' ''/out/clip_landscape.mp4'' True]"
    using a m f
    by (simp add: worker_convert_def convert_entry_def audio_stage_def last_resort_def
        stop_midway_env_def op tv bg completion_def Let_def)
  have 3: "filter is_report (worker_convert default_cfg stopped_env [''/in/clip.mp4''] ''/out'')
     = [SetStatus ''Done'', ShowInfo ''Done'' ''Finished 0/1 files.'']"
    by (simp add: worker_convert_def stopped_env_def completion_def str_int_small Let_def)
  have 4: "filter is_report (worker_convert default_cfg failing_env [''/in/clip.mp4''] ''/out'')
     = [SetStatus ''Done'', ShowInfo ''Done'' ''Finished 0/1 files.'']"
    by (simp add: worker_convert_def convert_entry_def failing_env_def completion_def
        str_int_small Let_def)
  show ?thesis using 1 2 3 4 by simp
qed

end
